theory Spec2Isabelle
  imports Main
begin

section \<open>Data model\<close>

text \<open>
  The two mongoose collections the RSVP subsystem works on, as lists of documents.
  An ObjectId is a natural number. Dates are integer timestamps. Counts are integers:
  the schema type is Number, and the model covers the integer values.
\<close>

type_synonym oid = nat

text \<open>models/RSVP: \<^verbatim>\<open>status: enum ['confirmed', 'cancelled', 'waitlist']\<close>.\<close>

datatype rsvp_status = Confirmed | Cancelled | Waitlist

text \<open>models/Event.js, without the two timestamps, which no handler reads.\<close>

record event_doc =
  eid :: oid
  title :: string
  description :: string
  date :: int
  location :: string
  capacity :: int
  attendeeCount :: int
  imageUrl :: "string option"
  creator :: oid

text \<open>models/RSVP (src/unnamed/part_004).\<close>

record rsvp_doc =
  rid :: oid
  event :: oid
  user :: oid
  status :: rsvp_status
  createdAt :: int
  updatedAt :: int

record db =
  events :: "event_doc list"
  rsvps :: "rsvp_doc list"

definition emptyDb :: db where
  "emptyDb = \<lparr>events = [], rsvps = []\<rparr>"

text \<open>
  Errors thrown by the storage layer, told apart the way the handlers do:
  \<^verbatim>\<open>innerError.code === 11000\<close> is the duplicate key of a unique index,
  \<^verbatim>\<open>error.name === 'CastError'\<close> a malformed id, and a schema validator that fails
  raises a validation error.
\<close>

datatype storage_error = DuplicateKey | CastError | ValidationError | OtherError

section \<open>Requests and responses\<close>

text \<open>\<^verbatim>\<open>req.params.eventId\<close> / \<^verbatim>\<open>req.params.id\<close>: a string that is an ObjectId or is not.\<close>

datatype id_param = Malformed | Oid oid

text \<open>
  \<^verbatim>\<open>req.body\<close> of the event routes. A missing key is \<open>None\<close>. \<open>b_imageUrl\<close> tells
  \<^verbatim>\<open>undefined\<close> (\<open>None\<close>) from \<^verbatim>\<open>null\<close> (\<open>Some None\<close>). \<open>b_attendeeCount\<close> is a key a
  client may send although no handler destructures it.
\<close>

record event_body =
  b_title :: "string option"
  b_description :: "string option"
  b_date :: "int option"
  b_location :: "string option"
  b_capacity :: "int option"
  b_imageUrl :: "string option option"
  b_attendeeCount :: "int option"

text \<open>
  One request: the id parameter, the authenticated caller \<^verbatim>\<open>req.user._id\<close>, the value of
  \<^verbatim>\<open>new Date()\<close> while the handler runs, the outcome of \<^verbatim>\<open>validationResult(req)\<close> (the
  rules live in the route files), the body, and \<open>fault\<close>: an error the storage layer
  throws at the handler's write for a reason the model does not compute (network, the
  trim, maxlength and cast rules of the text fields). Each handler says where its
  fault strikes.
\<close>

record request =
  param :: id_param
  caller :: oid
  now :: int
  validationOk :: bool
  body :: event_body
  fault :: "storage_error option"

text \<open>The JSON objects the RSVP handlers answer with.\<close>

type_synonym rsvp_view = "oid \<times> oid \<times> rsvp_status \<times> int"
  \<comment> \<open>id, event, status, createdAt\<close>

type_synonym event_view = "oid \<times> string \<times> int \<times> int \<times> int"
  \<comment> \<open>id, title, attendeeCount, capacity, availableSpots\<close>

datatype payload =
    NoPayload
  | RsvpAndEvent rsvp_view event_view
  | EventOnly event_view
  | Status bool "(oid \<times> rsvp_status \<times> int) option"
  | EventDoc event_doc
  | CurrentCount int

datatype response = Response (code: nat) (message: string) (payload: payload)

definition eventView :: "event_doc \<Rightarrow> event_view" where
  "eventView e =
     (eid e, title e, attendeeCount e, capacity e, capacity e - attendeeCount e)"

section \<open>Collection operations\<close>

text \<open>
  \<^verbatim>\<open>findOne(filter)\<close> is \<^const>\<open>find\<close>. \<^verbatim>\<open>findOneAndUpdate(filter, update, {new: true})\<close>
  changes the first document that matches and returns it as updated, or returns null
  and changes nothing.
\<close>

fun findOneAndUpdate :: "('a \<Rightarrow> bool) \<Rightarrow> ('a \<Rightarrow> 'a) \<Rightarrow> 'a list \<Rightarrow> 'a option \<times> 'a list" where
  "findOneAndUpdate q u [] = (None, [])"
| "findOneAndUpdate q u (x # xs) =
     (if q x then (Some (u x), u x # xs)
      else (case findOneAndUpdate q u xs of (r, ys) \<Rightarrow> (r, x # ys)))"

text \<open>\<^verbatim>\<open>findByIdAndDelete\<close>: the first matching document is removed.\<close>

fun findOneAndDelete :: "('a \<Rightarrow> bool) \<Rightarrow> 'a list \<Rightarrow> 'a list" where
  "findOneAndDelete q [] = []"
| "findOneAndDelete q (x # xs) = (if q x then xs else x # findOneAndDelete q xs)"

text \<open>The driver gives a new document an ObjectId no document of the collection has.\<close>

definition freshId :: "oid list \<Rightarrow> oid" where
  "freshId ids = Suc (foldr max ids 0)"

definition findById :: "oid \<Rightarrow> event_doc list \<Rightarrow> event_doc option" where
  "findById i evs = find (\<lambda>e. eid e = i) evs"

section \<open>Capacity ledger: the two conditional updates\<close>

text \<open>
  createRsvp, lines 118-133:
  \<^verbatim>\<open>Event.findOneAndUpdate({_id: eventId, $expr: {$lt: ['$attendeeCount', '$capacity']}},
       {$inc: {attendeeCount: 1}}, {new: true, session})\<close>
\<close>

definition admit :: "oid \<Rightarrow> event_doc list \<Rightarrow> event_doc option \<times> event_doc list" where
  "admit i evs =
     findOneAndUpdate (\<lambda>e. eid e = i \<and> attendeeCount e < capacity e)
       (\<lambda>e. e\<lparr>attendeeCount := attendeeCount e + 1\<rparr>) evs"

text \<open>
  cancelRsvp, lines 260-272:
  \<^verbatim>\<open>Event.findOneAndUpdate({_id: eventId, attendeeCount: {$gt: 0}},
       {$inc: {attendeeCount: -1}}, {new: true, session})\<close>
\<close>

definition release :: "oid \<Rightarrow> event_doc list \<Rightarrow> event_doc option \<times> event_doc list" where
  "release i evs =
     findOneAndUpdate (\<lambda>e. eid e = i \<and> attendeeCount e > 0)
       (\<lambda>e. e\<lparr>attendeeCount := attendeeCount e - 1\<rparr>) evs"

section \<open>Attendance registry: writes to the RSVP collection\<close>

text \<open>
  \<^verbatim>\<open>RSVP.create([{event, user, status: 'confirmed'}])\<close>. The unique index
  \<^verbatim>\<open>rsvpSchema.index({event: 1, user: 1}, {unique: true})\<close> refuses the insert when a
  document with the same pair exists, whatever its status.
\<close>

definition rsvpCreate ::
  "oid \<Rightarrow> oid \<Rightarrow> int \<Rightarrow> rsvp_doc list \<Rightarrow> storage_error + (rsvp_doc \<times> rsvp_doc list)" where
  "rsvpCreate i u t rs =
     (if \<exists>r \<in> set rs. event r = i \<and> user r = u then Inl DuplicateKey
      else (let r = \<lparr>rid = freshId (map rid rs), event = i, user = u,
                      status = Confirmed, createdAt = t, updatedAt = t\<rparr>
            in Inr (r, rs @ [r])))"

text \<open>
  \<^verbatim>\<open>doc.status = s; doc.updatedAt = new Date(); doc.save({session})\<close>: the two modified
  paths are written to the stored document with the id of \<open>doc\<close>; saving a document
  that is no longer stored throws.
\<close>

definition rsvpSave ::
  "rsvp_doc \<Rightarrow> rsvp_status \<Rightarrow> int \<Rightarrow> rsvp_doc list \<Rightarrow> storage_error + (rsvp_doc \<times> rsvp_doc list)" where
  "rsvpSave doc s t rs =
     (if \<exists>r \<in> set rs. rid r = rid doc
      then Inr (doc\<lparr>status := s, updatedAt := t\<rparr>,
                map (\<lambda>r. if rid r = rid doc then r\<lparr>status := s, updatedAt := t\<rparr> else r) rs)
      else Inl OtherError)"

definition findRsvp :: "oid \<Rightarrow> oid \<Rightarrow> rsvp_status \<Rightarrow> rsvp_doc list \<Rightarrow> rsvp_doc option" where
  "findRsvp i u s rs = find (\<lambda>r. event r = i \<and> user r = u \<and> status r = s) rs"

section \<open>RSVP controller (src/unnamed/part_005)\<close>

text \<open>
  The registry step of createRsvp, lines 143-158: a cancelled document found before the
  transaction is reactivated, otherwise a new one is inserted. The request's fault
  strikes here.
\<close>

definition activate ::
  "request \<Rightarrow> oid \<Rightarrow> rsvp_doc option \<Rightarrow> rsvp_doc list
     \<Rightarrow> storage_error + (rsvp_doc \<times> rsvp_doc list)" where
  "activate req i cancelledRsvp rs =
     (case fault req of
        Some err \<Rightarrow> Inl err
      | None \<Rightarrow>
          (case cancelledRsvp of
             Some c \<Rightarrow> rsvpSave c Confirmed (now req) rs
           | None \<Rightarrow> rsvpCreate i (caller req) (now req) rs))"

text \<open>
  The transaction of createRsvp, lines 89-192. Every write carries the session, so
  \<^verbatim>\<open>abortTransaction\<close> leaves the database as it was when the transaction started and
  \<^verbatim>\<open>commitTransaction\<close> makes both writes visible.
\<close>

definition joinTx :: "request \<Rightarrow> oid \<Rightarrow> rsvp_doc option \<Rightarrow> db \<Rightarrow> response \<times> db" where
  "joinTx req i cancelledRsvp d =
     (case admit i (events d) of
        (None, _) \<Rightarrow>
          (Response 400 ''Event is at full capacity. Cannot RSVP.'' NoPayload, d)
      | (Some updatedEvent, evs') \<Rightarrow>
          (case activate req i cancelledRsvp (rsvps d) of
             Inl err \<Rightarrow>
               (if err = DuplicateKey
                then (Response 400 ''You have already RSVPed to this event'' NoPayload, d)
                else (Response 500 ''Error processing RSVP'' NoPayload, d))
           | Inr (rsvp, rs') \<Rightarrow>
               (Response 201 ''RSVP successful! You are registered for this event.''
                  (RsvpAndEvent (rid rsvp, i, status rsvp, createdAt rsvp)
                     (eventView updatedEvent)),
                \<lparr>events = evs', rsvps = rs'\<rparr>)))"

definition createRsvp :: "request \<Rightarrow> db \<Rightarrow> response \<times> db" where
  "createRsvp req d =
     (case param req of
        Malformed \<Rightarrow> (Response 400 ''Invalid event ID'' NoPayload, d)
      | Oid i \<Rightarrow>
          (case findById i (events d) of
             None \<Rightarrow> (Response 404 ''Event not found'' NoPayload, d)
           | Some ev \<Rightarrow>
               if date ev < now req
               then (Response 400 ''Cannot RSVP to past events'' NoPayload, d)
               else (case findRsvp i (caller req) Confirmed (rsvps d) of
                       Some existingRsvp \<Rightarrow>
                         (Response 400 ''You have already RSVPed to this event'' NoPayload, d)
                     | None \<Rightarrow>
                         joinTx req i (findRsvp i (caller req) Cancelled (rsvps d)) d)))"

text \<open>
  The transaction of cancelRsvp, lines 244-299: the found document is saved as
  cancelled (the request's fault strikes here), then the count is released. A release
  that matches no document aborts the transaction.
\<close>

definition leaveTx :: "request \<Rightarrow> oid \<Rightarrow> rsvp_doc \<Rightarrow> db \<Rightarrow> response \<times> db" where
  "leaveTx req i rsvp d =
     (case (case fault req of
              Some err \<Rightarrow> Inl err
            | None \<Rightarrow> rsvpSave rsvp Cancelled (now req) (rsvps d)) of
        Inl err \<Rightarrow> (Response 500 ''Error cancelling RSVP'' NoPayload, d)
      | Inr (saved, rs') \<Rightarrow>
          (case release i (events d) of
             (None, _) \<Rightarrow>
               (Response 500 ''Error updating event. Please try again.'' NoPayload, d)
           | (Some updatedEvent, evs') \<Rightarrow>
               (Response 200 ''RSVP cancelled successfully.''
                  (EventOnly (eventView updatedEvent)),
                \<lparr>events = evs', rsvps = rs'\<rparr>)))"

definition cancelRsvp :: "request \<Rightarrow> db \<Rightarrow> response \<times> db" where
  "cancelRsvp req d =
     (case param req of
        Malformed \<Rightarrow> (Response 400 ''Invalid event ID'' NoPayload, d)
      | Oid i \<Rightarrow>
          (case findRsvp i (caller req) Confirmed (rsvps d) of
             None \<Rightarrow>
               (Response 404 ''RSVP not found. You are not registered for this event.''
                  NoPayload, d)
           | Some rsvp \<Rightarrow>
               (case findById i (events d) of
                  None \<Rightarrow> (Response 404 ''Event not found'' NoPayload, d)
                | Some ev \<Rightarrow> leaveTx req i rsvp d)))"

text \<open>getRsvpStatus, lines 363-389. It reads and writes nothing.\<close>

definition getRsvpStatus :: "request \<Rightarrow> db \<Rightarrow> response" where
  "getRsvpStatus req d =
     (case param req of
        Malformed \<Rightarrow> Response 400 ''Invalid event ID'' NoPayload
      | Oid i \<Rightarrow>
          (let rsvp = findRsvp i (caller req) Confirmed (rsvps d)
           in Response 200 []
                (Status (rsvp \<noteq> None)
                   (map_option (\<lambda>r. (rid r, status r, createdAt r)) rsvp))))"

section \<open>Event controller (src/backend/controllers/eventController.js)\<close>

text \<open>JavaScript truthiness of a body value: a non-empty string, a number other than 0.\<close>

definition truthyStr :: "string option \<Rightarrow> bool" where
  "truthyStr v = (case v of None \<Rightarrow> False | Some s \<Rightarrow> s \<noteq> [])"

definition truthyNum :: "int option \<Rightarrow> bool" where
  "truthyNum v = (case v of None \<Rightarrow> False | Some n \<Rightarrow> n \<noteq> 0)"

text \<open>
  The capacity rules of the schema: \<^verbatim>\<open>min: [1, ...], max: [100000, ...]\<close>.
\<close>

definition capacityValid :: "int \<Rightarrow> bool" where
  "capacityValid c = (1 \<le> c \<and> c \<le> 100000)"

text \<open>
  \<^verbatim>\<open>Event.create({title, description, date, location, capacity,
       imageUrl: imageUrl || null, creator: req.user._id, attendeeCount: 0})\<close>
  (lines 29-38). The required paths and the capacity range are validated; the request's
  fault strikes here.
\<close>

definition eventCreate ::
  "request \<Rightarrow> event_doc list \<Rightarrow> storage_error + (event_doc \<times> event_doc list)" where
  "eventCreate req evs =
     (case fault req of
        Some err \<Rightarrow> Inl err
      | None \<Rightarrow>
          (case (b_title (body req), b_description (body req), b_date (body req),
                 b_location (body req), b_capacity (body req)) of
             (Some t, Some ds, Some dt, Some l, Some c) \<Rightarrow>
               if t = [] \<or> ds = [] \<or> l = [] \<or> \<not> capacityValid c then Inl ValidationError
               else (let e = \<lparr>eid = freshId (map eid evs), title = t, description = ds,
                               date = dt, location = l, capacity = c, attendeeCount = 0,
                               imageUrl = (case b_imageUrl (body req) of
                                             Some (Some s) \<Rightarrow> if s = [] then None else Some s
                                           | _ \<Rightarrow> None),
                               creator = caller req\<rparr>
                     in Inr (e, evs @ [e]))
           | _ \<Rightarrow> Inl ValidationError))"

definition createEvent :: "request \<Rightarrow> db \<Rightarrow> response \<times> db" where
  "createEvent req d =
     (if \<not> validationOk req then (Response 400 ''Validation failed'' NoPayload, d)
      else if (case b_date (body req) of Some dt \<Rightarrow> dt < now req | None \<Rightarrow> False)
      then (Response 400 ''Event date must be in the future'' NoPayload, d)
      else (case eventCreate req (events d) of
              Inl err \<Rightarrow> (Response 500 ''Error creating event'' NoPayload, d)
            | Inr (e, evs') \<Rightarrow>
                (Response 201 ''Event created successfully'' (EventDoc e),
                 d\<lparr>events := evs'\<rparr>)))"

text \<open>
  updateEvent, lines 201-208: only the six destructured keys can enter \<^verbatim>\<open>updateData\<close>,
  and each only when its test passes.
\<close>

definition updateData :: "event_body \<Rightarrow> event_doc \<Rightarrow> event_doc" where
  "updateData b e =
     e\<lparr>title := (if truthyStr (b_title b) then the (b_title b) else title e),
       description :=
         (if truthyStr (b_description b) then the (b_description b) else description e),
       date := (case b_date b of Some dt \<Rightarrow> dt | None \<Rightarrow> date e),
       location := (if truthyStr (b_location b) then the (b_location b) else location e),
       capacity := (if truthyNum (b_capacity b) then the (b_capacity b) else capacity e),
       imageUrl := (case b_imageUrl b of Some v \<Rightarrow> v | None \<Rightarrow> imageUrl e)\<rparr>"

text \<open>
  \<^verbatim>\<open>Event.findByIdAndUpdate(id, {$set: updateData}, {new: true, runValidators: true})\<close>
  (lines 210-214): a capacity that is set is validated first; the request's fault
  strikes here.
\<close>

definition eventUpdate ::
  "request \<Rightarrow> oid \<Rightarrow> event_doc list \<Rightarrow> storage_error + (event_doc option \<times> event_doc list)" where
  "eventUpdate req i evs =
     (case fault req of
        Some err \<Rightarrow> Inl err
      | None \<Rightarrow>
          if truthyNum (b_capacity (body req)) \<and> \<not> capacityValid (the (b_capacity (body req)))
          then Inl ValidationError
          else Inr (findOneAndUpdate (\<lambda>e. eid e = i) (updateData (body req)) evs))"

text \<open>
  updateEvent, lines 169-229. The 400 answer of line 196 carries the current count in
  its message; here it is the payload.
\<close>

definition updateEvent :: "request \<Rightarrow> db \<Rightarrow> response \<times> db" where
  "updateEvent req d =
     (if \<not> validationOk req then (Response 400 ''Validation failed'' NoPayload, d)
      else
        (case param req of
           Malformed \<Rightarrow> (Response 400 ''Invalid event ID'' NoPayload, d)
         | Oid i \<Rightarrow>
             (case findById i (events d) of
                None \<Rightarrow> (Response 404 ''Event not found'' NoPayload, d)
              | Some ev \<Rightarrow>
                  if creator ev \<noteq> caller req
                  then (Response 403
                          ''Not authorized. Only the event creator can update this event.''
                          NoPayload, d)
                  else if truthyNum (b_capacity (body req))
                          \<and> the (b_capacity (body req)) < attendeeCount ev
                  then (Response 400 ''Cannot reduce capacity below current attendee count''
                          (CurrentCount (attendeeCount ev)), d)
                  else
                    (case eventUpdate req i (events d) of
                       Inl err \<Rightarrow>
                         (if err = CastError
                          then (Response 400 ''Invalid event ID'' NoPayload, d)
                          else (Response 500 ''Error updating event'' NoPayload, d))
                     | Inr (updated, evs') \<Rightarrow>
                         (Response 200 ''Event updated successfully''
                            (case updated of Some e \<Rightarrow> EventDoc e | None \<Rightarrow> NoPayload),
                          d\<lparr>events := evs'\<rparr>)))))"

text \<open>
  deleteEvent, lines 236-269: \<^verbatim>\<open>RSVP.deleteMany({event: event._id})\<close>, then
  \<^verbatim>\<open>Event.findByIdAndDelete(req.params.id)\<close>, outside any transaction. The request's
  fault strikes at the second call.
\<close>

definition deleteEvent :: "request \<Rightarrow> db \<Rightarrow> response \<times> db" where
  "deleteEvent req d =
     (case param req of
        Malformed \<Rightarrow> (Response 400 ''Invalid event ID'' NoPayload, d)
      | Oid i \<Rightarrow>
          (case findById i (events d) of
             None \<Rightarrow> (Response 404 ''Event not found'' NoPayload, d)
           | Some ev \<Rightarrow>
               if creator ev \<noteq> caller req
               then (Response 403
                       ''Not authorized. Only the event creator can delete this event.''
                       NoPayload, d)
               else
                 (let rs' = filter (\<lambda>r. event r \<noteq> eid ev) (rsvps d)
                  in case fault req of
                       Some err \<Rightarrow>
                         (if err = CastError
                          then (Response 400 ''Invalid event ID'' NoPayload, d\<lparr>rsvps := rs'\<rparr>)
                          else (Response 500 ''Error deleting event'' NoPayload,
                                d\<lparr>rsvps := rs'\<rparr>))
                     | None \<Rightarrow>
                         (Response 200 ''Event deleted successfully'' NoPayload,
                          \<lparr>events = findOneAndDelete (\<lambda>e. eid e = i) (events d),
                           rsvps = rs'\<rparr>))))"

text \<open>
  updateEvent as two steps, for requests that overlap. Lines 171-199 read the event with
  \<^verbatim>\<open>Event.findById\<close> and test the caller and the new capacity on what was read: the step
  gives the early answer, or the id the handler goes on to write.
\<close>

definition updateEventCheck :: "request \<Rightarrow> db \<Rightarrow> response + oid" where
  "updateEventCheck req d =
     (if \<not> validationOk req then Inl (Response 400 ''Validation failed'' NoPayload)
      else
        (case param req of
           Malformed \<Rightarrow> Inl (Response 400 ''Invalid event ID'' NoPayload)
         | Oid i \<Rightarrow>
             (case findById i (events d) of
                None \<Rightarrow> Inl (Response 404 ''Event not found'' NoPayload)
              | Some ev \<Rightarrow>
                  if creator ev \<noteq> caller req
                  then Inl (Response 403
                          ''Not authorized. Only the event creator can update this event.''
                          NoPayload)
                  else if truthyNum (b_capacity (body req))
                          \<and> the (b_capacity (body req)) < attendeeCount ev
                  then Inl (Response 400 ''Cannot reduce capacity below current attendee count''
                          (CurrentCount (attendeeCount ev)))
                  else Inr i)))"

text \<open>
  Lines 201-219 build \<^verbatim>\<open>updateData\<close> from the body and write it with
  \<^verbatim>\<open>Event.findByIdAndUpdate\<close>, which carries no condition on the count and no session: the
  write applies to the database as it is when it arrives.
\<close>

definition updateEventWrite :: "request \<Rightarrow> oid \<Rightarrow> db \<Rightarrow> response \<times> db" where
  "updateEventWrite req i d =
     (case eventUpdate req i (events d) of
        Inl err \<Rightarrow>
          (if err = CastError
           then (Response 400 ''Invalid event ID'' NoPayload, d)
           else (Response 500 ''Error updating event'' NoPayload, d))
      | Inr (updated, evs') \<Rightarrow>
          (Response 200 ''Event updated successfully''
             (case updated of Some e \<Rightarrow> EventDoc e | None \<Rightarrow> NoPayload),
           d\<lparr>events := evs'\<rparr>))"

section \<open>Sequences of requests\<close>

datatype op =
    CreateEvent request
  | UpdateEvent request
  | DeleteEvent request
  | CreateRsvp request
  | CancelRsvp request
  | GetRsvpStatus request

fun step :: "op \<Rightarrow> db \<Rightarrow> db" where
  "step (CreateEvent req) d = snd (createEvent req d)"
| "step (UpdateEvent req) d = snd (updateEvent req d)"
| "step (DeleteEvent req) d = snd (deleteEvent req d)"
| "step (CreateRsvp req) d = snd (createRsvp req d)"
| "step (CancelRsvp req) d = snd (cancelRsvp req d)"
| "step (GetRsvpStatus req) d = d"

fun run :: "op list \<Rightarrow> db \<Rightarrow> db" where
  "run [] d = d"
| "run (x # xs) d = run xs (step x d)"

section \<open>State predicates\<close>

text \<open>The capacity invariant: every event has \<open>0 \<le> attendeeCount \<le> capacity\<close>.\<close>

definition capacityInv :: "db \<Rightarrow> bool" where
  "capacityInv d = (\<forall>e \<in> set (events d). 0 \<le> attendeeCount e \<and> attendeeCount e \<le> capacity e)"

text \<open>What the \<^verbatim>\<open>_id\<close> index and the unique index on (event, user) guarantee.\<close>

definition uniqueEventIds :: "db \<Rightarrow> bool" where
  "uniqueEventIds d = distinct (map eid (events d))"

definition uniquePairs :: "db \<Rightarrow> bool" where
  "uniquePairs d = distinct (map (\<lambda>r. (event r, user r)) (rsvps d))"

text \<open>The confirmed documents of one (event, user) pair.\<close>

definition activeRecords :: "oid \<Rightarrow> oid \<Rightarrow> db \<Rightarrow> rsvp_doc list" where
  "activeRecords i u d =
     filter (\<lambda>r. event r = i \<and> user r = u \<and> status r = Confirmed) (rsvps d)"

text \<open>No handler writes the status \<^verbatim>\<open>'waitlist'\<close>.\<close>

definition noWaitlist :: "db \<Rightarrow> bool" where
  "noWaitlist d = (\<forall>r \<in> set (rsvps d). status r \<noteq> Waitlist)"

section \<open>Example states\<close>

definition ex_event :: event_doc where
  "ex_event = \<lparr>eid = 1, title = ''Meetup'', description = ''Talks'', date = 100,
                location = ''Hall'', capacity = 2, attendeeCount = 1, imageUrl = None,
                creator = 9\<rparr>"

definition ex_body :: event_body where
  "ex_body = \<lparr>b_title = None, b_description = None, b_date = None, b_location = None,
               b_capacity = None, b_imageUrl = None, b_attendeeCount = None\<rparr>"

definition ex_req :: request where
  "ex_req = \<lparr>param = Oid 1, caller = 7, now = 50, validationOk = True, body = ex_body,
              fault = None\<rparr>"

definition ex_db :: db where
  "ex_db = \<lparr>events = [ex_event], rsvps = []\<rparr>"

definition ex_rsvp :: rsvp_doc where
  "ex_rsvp = \<lparr>rid = 4, event = 1, user = 7, status = Confirmed, createdAt = 10,
               updatedAt = 10\<rparr>"

definition ex_db_joined :: db where
  "ex_db_joined = \<lparr>events = [ex_event], rsvps = [ex_rsvp]\<rparr>"

definition ex_db_left :: db where
  "ex_db_left = \<lparr>events = [ex_event], rsvps = [ex_rsvp\<lparr>status := Cancelled\<rparr>]\<rparr>"

definition ex_db_floor :: db where
  "ex_db_floor = \<lparr>events = [ex_event\<lparr>attendeeCount := 0\<rparr>], rsvps = [ex_rsvp]\<rparr>"

definition ex_create_body :: event_body where
  "ex_create_body = \<lparr>b_title = Some ''Meetup'', b_description = Some ''Talks'',
                      b_date = Some 100, b_location = Some ''Hall'', b_capacity = Some 2,
                      b_imageUrl = None, b_attendeeCount = Some 99\<rparr>"

definition ex_update_req :: request where
  "ex_update_req = \<lparr>param = Oid 1, caller = 9, now = 50, validationOk = True,
                     body = ex_body\<lparr>b_capacity := Some 5, b_attendeeCount := Some 99\<rparr>,
                     fault = None\<rparr>"

definition ex_create_req :: request where
  "ex_create_req = \<lparr>param = Malformed, caller = 9, now = 50, validationOk = True,
                     body = ex_create_body, fault = None\<rparr>"

definition ex_db_new :: db where
  "ex_db_new = \<lparr>events = [ex_event\<lparr>attendeeCount := 0\<rparr>], rsvps = []\<rparr>"

definition ex_rsvp_new :: rsvp_doc where
  "ex_rsvp_new = \<lparr>rid = 1, event = 1, user = 7, status = Confirmed, createdAt = 50,
                   updatedAt = 50\<rparr>"

definition ex_db_in :: db where
  "ex_db_in = \<lparr>events = [ex_event], rsvps = [ex_rsvp_new]\<rparr>"

definition ex_db_out :: db where
  "ex_db_out = \<lparr>events = [ex_event\<lparr>attendeeCount := 0\<rparr>],
                rsvps = [ex_rsvp_new\<lparr>status := Cancelled\<rparr>]\<rparr>"

definition ex_lower_req :: request where
  "ex_lower_req = \<lparr>param = Oid 1, caller = 9, now = 50, validationOk = True,
                    body = ex_body\<lparr>b_capacity := Some 1\<rparr>, fault = None\<rparr>"

definition ex_other_req :: request where
  "ex_other_req = \<lparr>param = Oid 1, caller = 8, now = 50, validationOk = True, body = ex_body,
                    fault = None\<rparr>"

section \<open>Collection lemmas\<close>

lemma fou_none: "\<forall>x \<in> set xs. \<not> q x \<Longrightarrow> findOneAndUpdate q u xs = (None, xs)"
  by (induction xs) auto

lemma fou_inv:
  "\<forall>x \<in> set xs. P x \<Longrightarrow> (\<And>x. P x \<Longrightarrow> q x \<Longrightarrow> P (u x))
     \<Longrightarrow> \<forall>y \<in> set (snd (findOneAndUpdate q u xs)). P y"
  by (induction xs) (auto split: prod.splits)

lemma fou_map_key:
  "(\<And>x. k (u x) = k x) \<Longrightarrow> map k (snd (findOneAndUpdate q u xs)) = map k xs"
  by (induction xs) (auto split: prod.splits)

lemma fou_unchanged:
  "fst (findOneAndUpdate q u xs) = None \<Longrightarrow> snd (findOneAndUpdate q u xs) = xs"
  by (induction xs) (auto split: prod.splits if_splits)

lemma fou_distinct:
  "distinct (map k xs) \<Longrightarrow> find (\<lambda>x. k x = i) xs = Some e \<Longrightarrow>
   findOneAndUpdate (\<lambda>x. k x = i \<and> c x) u xs =
     (if c e then (Some (u e), map (\<lambda>x. if k x = i then u x else x) xs) else (None, xs))"
proof (induction xs)
  case Nil
  then show ?case by simp
next
  case (Cons x xs)
  show ?case
  proof (cases "k x = i")
    case True
    with Cons.prems have xe: "x = e" by simp
    from Cons.prems have "k x \<notin> k ` set xs" by simp
    with True have nokey: "\<forall>y \<in> set xs. k y \<noteq> i" by blast
    then have same: "map (\<lambda>x. if k x = i then u x else x) xs = xs"
      by (simp add: map_idI)
    from nokey have "findOneAndUpdate (\<lambda>x. k x = i \<and> c x) u xs = (None, xs)"
      by (intro fou_none) simp
    with True xe same show ?thesis by simp
  next
    case False
    with Cons show ?thesis by simp
  qed
qed

lemma freshId_ge: "x \<in> set ids \<Longrightarrow> x < freshId ids"
  unfolding freshId_def by (induction ids) auto

lemma freshId_fresh: "freshId ids \<notin> set ids"
  using freshId_ge by blast

lemma fod_subset: "set (findOneAndDelete q xs) \<subseteq> set xs"
  by (induction xs) auto

lemma fod_distinct: "distinct (map k xs) \<Longrightarrow> distinct (map k (findOneAndDelete q xs))"
  using fod_subset by (induction xs) (auto, force)


section \<open>The admit step\<close>

text \<open>
  Claim C1. The admit step of join is one conditional update of the event document with
  the given id: when \<open>attendeeCount < capacity\<close> it adds exactly 1 to \<open>attendeeCount\<close> and
  returns the document as updated (so the count after the increment, and the capacity);
  otherwise it returns nothing and the collection is unchanged, and the join answers
  that the event is at full capacity and leaves the database as it was.
\<close>

theorem admit_conditional_update:
  assumes "uniqueEventIds d" and "findById i (events d) = Some e"
  shows "admit i (events d) =
           (if attendeeCount e < capacity e
            then (Some (e\<lparr>attendeeCount := attendeeCount e + 1\<rparr>),
                  map (\<lambda>x. if eid x = i then x\<lparr>attendeeCount := attendeeCount x + 1\<rparr> else x)
                    (events d))
            else (None, events d))
         \<and> (\<not> attendeeCount e < capacity e \<longrightarrow>
              joinTx req i c d =
                (Response 400 ''Event is at full capacity. Cannot RSVP.'' NoPayload, d))"
proof -
  from assms have a: "admit i (events d) =
           (if attendeeCount e < capacity e
            then (Some (e\<lparr>attendeeCount := attendeeCount e + 1\<rparr>),
                  map (\<lambda>x. if eid x = i then x\<lparr>attendeeCount := attendeeCount x + 1\<rparr> else x)
                    (events d))
            else (None, events d))"
    unfolding admit_def uniqueEventIds_def findById_def by (rule fou_distinct)
  then show ?thesis by (simp add: joinTx_def)
qed

theorem admit_conditional_update_witness:
  "uniqueEventIds ex_db \<and> findById 1 (events ex_db) = Some ex_event
   \<and> admit 1 (events ex_db) =
       (Some (ex_event\<lparr>attendeeCount := 2\<rparr>), [ex_event\<lparr>attendeeCount := 2\<rparr>])"
proof -
  have u: "uniqueEventIds ex_db" by (simp add: uniqueEventIds_def ex_db_def)
  have f: "findById 1 (events ex_db) = Some ex_event"
    by (simp add: findById_def ex_db_def ex_event_def)
  from admit_conditional_update [OF u f] u f show ?thesis
    by (simp add: ex_db_def ex_event_def)
qed

lemma findRsvp_Some:
  "findRsvp i u s rs = Some r \<Longrightarrow> r \<in> set rs \<and> event r = i \<and> user r = u \<and> status r = s"
  unfolding findRsvp_def by (auto simp: find_Some_iff in_set_conv_nth)

lemma findRsvp_None:
  "findRsvp i u s rs = None \<longleftrightarrow> \<not> (\<exists>r \<in> set rs. event r = i \<and> user r = u \<and> status r = s)"
  unfolding findRsvp_def by (auto simp: find_None_iff)

lemma findById_Some: "findById i evs = Some e \<Longrightarrow> e \<in> set evs \<and> eid e = i"
  unfolding findById_def by (auto simp: find_Some_iff in_set_conv_nth)

section \<open>The status query\<close>

text \<open>
  Claim C10. getRsvpStatus answers \<open>hasRsvped = true\<close> exactly when a document with status
  confirmed exists for the (event, caller) pair, and then gives that document's id,
  status and creation date. With no confirmed document the answer is
  \<open>hasRsvped = false\<close> with no record details, and it is the answer the same request gets
  when the pair has no document at all: a cancelled document cannot be told from never
  having joined.
\<close>

theorem getRsvpStatus_confirmed_only:
  assumes "param req = Oid i"
  shows "((\<exists>r \<in> set (rsvps d). event r = i \<and> user r = caller req \<and> status r = Confirmed) \<longrightarrow>
            (\<exists>r \<in> set (rsvps d). event r = i \<and> user r = caller req \<and> status r = Confirmed
               \<and> getRsvpStatus req d =
                   Response 200 [] (Status True (Some (rid r, Confirmed, createdAt r)))))
         \<and> (\<not> (\<exists>r \<in> set (rsvps d). event r = i \<and> user r = caller req \<and> status r = Confirmed) \<longrightarrow>
              getRsvpStatus req d = Response 200 [] (Status False None)
              \<and> getRsvpStatus req
                  (d\<lparr>rsvps := filter (\<lambda>r. \<not> (event r = i \<and> user r = caller req)) (rsvps d)\<rparr>)
                = getRsvpStatus req d)"
proof (cases "findRsvp i (caller req) Confirmed (rsvps d)")
  case None
  then have no: "\<not> (\<exists>r \<in> set (rsvps d). event r = i \<and> user r = caller req \<and> status r = Confirmed)"
    by (simp add: findRsvp_None)
  have "findRsvp i (caller req) Confirmed
          (filter (\<lambda>r. \<not> (event r = i \<and> user r = caller req)) (rsvps d)) = None"
    by (simp add: findRsvp_None)
  with None no assms show ?thesis by (simp add: getRsvpStatus_def)
next
  case (Some r)
  from findRsvp_Some [OF Some] Some assms show ?thesis
    by (auto simp: getRsvpStatus_def)
qed

theorem getRsvpStatus_confirmed_only_witness:
  "param ex_req = Oid 1
   \<and> getRsvpStatus ex_req ex_db_joined = Response 200 [] (Status True (Some (4, Confirmed, 10)))
   \<and> getRsvpStatus ex_req ex_db_left = Response 200 [] (Status False None)
   \<and> getRsvpStatus ex_req ex_db = Response 200 [] (Status False None)"
proof -
  have p: "param ex_req = Oid 1" by (simp add: ex_req_def)
  from getRsvpStatus_confirmed_only [OF p, of ex_db_joined]
       getRsvpStatus_confirmed_only [OF p, of ex_db_left]
       getRsvpStatus_confirmed_only [OF p, of ex_db] p
  show ?thesis
    by (simp add: ex_db_joined_def ex_db_left_def ex_db_def ex_rsvp_def ex_req_def)
qed

section \<open>Deleting an event\<close>



section \<open>Failures inside the join transaction\<close>

text \<open>
  Claim C4. When the admit of a join succeeded and the registry write then fails, the
  transaction is aborted before the answer is sent: the database, and with it
  \<open>attendeeCount\<close>, is as it was before the join. A duplicate key error of the unique
  index is answered as 400 "You have already RSVPed to this event"; any other error as
  500 with a fixed message. More generally, every join that does not answer 201 leaves
  the database unchanged.
\<close>

theorem join_registry_failure_undone:
  assumes "admit i (events d) = (Some updatedEvent, evs')"
    and "activate req i c (rsvps d) = Inl err"
  shows "snd (joinTx req i c d) = d
         \<and> (err = DuplicateKey \<longrightarrow>
              fst (joinTx req i c d) =
                Response 400 ''You have already RSVPed to this event'' NoPayload)
         \<and> (err \<noteq> DuplicateKey \<longrightarrow>
              fst (joinTx req i c d) = Response 500 ''Error processing RSVP'' NoPayload)
         \<and> (code (fst (createRsvp req d)) \<noteq> 201 \<longrightarrow> snd (createRsvp req d) = d)"
proof -
  have whole: "code (fst (createRsvp req d)) \<noteq> 201 \<longrightarrow> snd (createRsvp req d) = d"
    by (auto simp: createRsvp_def joinTx_def
             split: id_param.splits option.splits prod.splits sum.splits if_splits)
  from assms whole show ?thesis by (simp add: joinTx_def)
qed

theorem join_registry_failure_undone_witness:
  "admit 1 (events ex_db_joined) = (Some (ex_event\<lparr>attendeeCount := 2\<rparr>),
                                    [ex_event\<lparr>attendeeCount := 2\<rparr>])
   \<and> activate ex_req 1 None (rsvps ex_db_joined) = Inl DuplicateKey
   \<and> joinTx ex_req 1 None ex_db_joined =
       (Response 400 ''You have already RSVPed to this event'' NoPayload, ex_db_joined)"
proof -
  have a: "admit 1 (events ex_db_joined) = (Some (ex_event\<lparr>attendeeCount := 2\<rparr>),
                                           [ex_event\<lparr>attendeeCount := 2\<rparr>])"
    by (simp add: admit_def ex_db_joined_def ex_event_def)
  have b: "activate ex_req 1 None (rsvps ex_db_joined) = Inl DuplicateKey"
    by (simp add: activate_def rsvpCreate_def ex_req_def ex_db_joined_def ex_rsvp_def)
  from join_registry_failure_undone [OF a b] a b show ?thesis
    by (simp add: prod_eq_iff)
qed

section \<open>A release that fails during leave\<close>

text \<open>
  Claim C5, as stated, fails: it says that when the release fails after the attendance
  document was flipped to cancelled, the cancellation stays. In cancelRsvp the flip is a
  write of the transaction, and the branch for a failed release calls
  \<^verbatim>\<open>session.abortTransaction()\<close> (line 276): the stored document is confirmed afterwards.
\<close>

theorem leave_floor_keeps_cancellation_counterexample:
  "fst (cancelRsvp ex_req ex_db_floor) =
     Response 500 ''Error updating event. Please try again.'' NoPayload
   \<and> findRsvp 1 7 Cancelled (rsvps (snd (cancelRsvp ex_req ex_db_floor))) = None
   \<and> findRsvp 1 7 Confirmed (rsvps (snd (cancelRsvp ex_req ex_db_floor))) = Some ex_rsvp"
  by (simp add: cancelRsvp_def leaveTx_def release_def rsvpSave_def findRsvp_def findById_def
        ex_req_def ex_db_floor_def ex_event_def ex_rsvp_def)

text \<open>
  Claim C5, amended. During leave, when the caller has a confirmed document and the
  event's \<open>attendeeCount\<close> is already at the floor (not above 0), the release matches no
  document, the transaction is aborted and the answer is 500 "Error updating event.
  Please try again.": the database is unchanged, so the flip to cancelled is rolled
  back and the caller's document is still confirmed; the count is not touched.
\<close>

theorem leave_release_failure_aborts:
  assumes "uniqueEventIds d" and "param req = Oid i" and "fault req = None"
    and "findRsvp i (caller req) Confirmed (rsvps d) = Some r"
    and "findById i (events d) = Some ev" and "attendeeCount ev \<le> 0"
  shows "cancelRsvp req d =
           (Response 500 ''Error updating event. Please try again.'' NoPayload, d)
         \<and> findRsvp i (caller req) Confirmed (rsvps (snd (cancelRsvp req d))) = Some r"
proof -
  from assms(1,5,6) have rel: "release i (events d) = (None, events d)"
    unfolding release_def uniqueEventIds_def findById_def
    by (simp add: fou_distinct [where c = "\<lambda>e. attendeeCount e > 0"])
  from findRsvp_Some [OF assms(4)] have "\<exists>x \<in> set (rsvps d). rid x = rid r" by blast
  then have "\<exists>saved rs'. rsvpSave r Cancelled (now req) (rsvps d) = Inr (saved, rs')"
    by (simp add: rsvpSave_def)
  with rel assms show ?thesis
    by (auto simp: cancelRsvp_def leaveTx_def)
qed

theorem leave_release_failure_aborts_witness:
  "uniqueEventIds ex_db_floor \<and> param ex_req = Oid 1 \<and> fault ex_req = None
   \<and> findRsvp 1 (caller ex_req) Confirmed (rsvps ex_db_floor) = Some ex_rsvp
   \<and> findById 1 (events ex_db_floor) = Some (ex_event\<lparr>attendeeCount := 0\<rparr>)
   \<and> cancelRsvp ex_req ex_db_floor =
       (Response 500 ''Error updating event. Please try again.'' NoPayload, ex_db_floor)"
proof -
  have u: "uniqueEventIds ex_db_floor" by (simp add: uniqueEventIds_def ex_db_floor_def)
  have p: "param ex_req = Oid 1" and f: "fault ex_req = None" by (simp_all add: ex_req_def)
  have r: "findRsvp 1 (caller ex_req) Confirmed (rsvps ex_db_floor) = Some ex_rsvp"
    by (simp add: findRsvp_def ex_req_def ex_db_floor_def ex_rsvp_def)
  have e: "findById 1 (events ex_db_floor) = Some (ex_event\<lparr>attendeeCount := 0\<rparr>)"
    by (simp add: findById_def ex_db_floor_def ex_event_def)
  have c: "attendeeCount (ex_event\<lparr>attendeeCount := 0\<rparr>) \<le> 0" by simp
  from leave_release_failure_aborts [OF u p f r e c] u p f r e show ?thesis by simp
qed

section \<open>The capacity invariant\<close>

lemma fou_fst: "fst (findOneAndUpdate q u xs) = map_option u (find q xs)"
  by (induction xs) (auto split: prod.splits)

lemma fou_set:
  "set (snd (findOneAndUpdate q u xs)) \<subseteq> set xs \<union> u ` set_option (find q xs)"
  by (induction xs) (auto split: prod.splits)

lemma capacityInv_admit:
  assumes "capacityInv d"
  shows "capacityInv \<lparr>events = snd (admit i (events d)), rsvps = rs\<rparr>"
proof -
  have "\<forall>e \<in> set (snd (admit i (events d))).
          0 \<le> attendeeCount e \<and> attendeeCount e \<le> capacity e"
    unfolding admit_def
  proof (rule fou_inv [where P = "\<lambda>e. 0 \<le> attendeeCount e \<and> attendeeCount e \<le> capacity e"])
    from assms show "\<forall>e \<in> set (events d). 0 \<le> attendeeCount e \<and> attendeeCount e \<le> capacity e"
      by (simp add: capacityInv_def)
  next
    fix x :: event_doc
    assume "0 \<le> attendeeCount x \<and> attendeeCount x \<le> capacity x"
      and "eid x = i \<and> attendeeCount x < capacity x"
    then show "0 \<le> attendeeCount (x\<lparr>attendeeCount := attendeeCount x + 1\<rparr>)
               \<and> attendeeCount (x\<lparr>attendeeCount := attendeeCount x + 1\<rparr>)
                   \<le> capacity (x\<lparr>attendeeCount := attendeeCount x + 1\<rparr>)"
      by simp
  qed
  then show ?thesis by (simp add: capacityInv_def)
qed

lemma capacityInv_release:
  assumes "capacityInv d"
  shows "capacityInv \<lparr>events = snd (release i (events d)), rsvps = rs\<rparr>"
proof -
  have "\<forall>e \<in> set (snd (release i (events d))).
          0 \<le> attendeeCount e \<and> attendeeCount e \<le> capacity e"
    unfolding release_def
  proof (rule fou_inv [where P = "\<lambda>e. 0 \<le> attendeeCount e \<and> attendeeCount e \<le> capacity e"])
    from assms show "\<forall>e \<in> set (events d). 0 \<le> attendeeCount e \<and> attendeeCount e \<le> capacity e"
      by (simp add: capacityInv_def)
  next
    fix x :: event_doc
    assume "0 \<le> attendeeCount x \<and> attendeeCount x \<le> capacity x"
      and "eid x = i \<and> attendeeCount x > 0"
    then show "0 \<le> attendeeCount (x\<lparr>attendeeCount := attendeeCount x - 1\<rparr>)
               \<and> attendeeCount (x\<lparr>attendeeCount := attendeeCount x - 1\<rparr>)
                   \<le> capacity (x\<lparr>attendeeCount := attendeeCount x - 1\<rparr>)"
      by simp
  qed
  then show ?thesis by (simp add: capacityInv_def)
qed

lemma capacityInv_rsvps: "capacityInv (d\<lparr>rsvps := rs\<rparr>) = capacityInv d"
  by (simp add: capacityInv_def)

lemma capacityInv_joinTx: "capacityInv d \<Longrightarrow> capacityInv (snd (joinTx req i c d))"
proof -
  assume inv: "capacityInv d"
  obtain r evs' where a: "admit i (events d) = (r, evs')" by (cases "admit i (events d)")
  then have "evs' = snd (admit i (events d))" by simp
  with capacityInv_admit [OF inv] have "\<And>rs. capacityInv \<lparr>events = evs', rsvps = rs\<rparr>" by simp
  with inv a show ?thesis
    by (auto simp: joinTx_def split: option.splits sum.splits)
qed

lemma capacityInv_createRsvp: "capacityInv d \<Longrightarrow> capacityInv (snd (createRsvp req d))"
  by (auto simp: createRsvp_def capacityInv_joinTx split: id_param.splits option.splits)

lemma capacityInv_leaveTx: "capacityInv d \<Longrightarrow> capacityInv (snd (leaveTx req i r d))"
proof -
  assume inv: "capacityInv d"
  obtain x evs' where a: "release i (events d) = (x, evs')" by (cases "release i (events d)")
  then have "evs' = snd (release i (events d))" by simp
  with capacityInv_release [OF inv] have "\<And>rs. capacityInv \<lparr>events = evs', rsvps = rs\<rparr>" by simp
  with inv a show ?thesis
    by (auto simp: leaveTx_def split: option.splits sum.splits)
qed

lemma capacityInv_cancelRsvp: "capacityInv d \<Longrightarrow> capacityInv (snd (cancelRsvp req d))"
  by (auto simp: cancelRsvp_def capacityInv_leaveTx split: id_param.splits option.splits)

lemma eventCreate_Inr:
  "eventCreate req evs = Inr (e, evs') \<Longrightarrow>
     evs' = evs @ [e] \<and> attendeeCount e = 0 \<and> capacityValid (capacity e)
     \<and> eid e = freshId (map eid evs)"
  by (auto simp: eventCreate_def Let_def split: option.splits if_splits)

lemma capacityInv_createEvent: "capacityInv d \<Longrightarrow> capacityInv (snd (createEvent req d))"
  by (auto simp: createEvent_def capacityInv_def capacityValid_def
           split: sum.splits dest!: eventCreate_Inr)

lemma capacityInv_deleteEvent: "capacityInv d \<Longrightarrow> capacityInv (snd (deleteEvent req d))"
  using fod_subset [of _ "events d"]
  by (auto simp: deleteEvent_def capacityInv_def Let_def split: id_param.splits option.splits)

lemma capacityInv_updateEvent: "capacityInv d \<Longrightarrow> capacityInv (snd (updateEvent req d))"
proof -
  assume inv: "capacityInv d"
  show ?thesis
  proof (cases "param req")
    case Malformed
    with inv show ?thesis by (simp add: updateEvent_def)
  next
    case (Oid i)
    show ?thesis
    proof (cases "findById i (events d)")
      case None
      with inv Oid show ?thesis by (simp add: updateEvent_def)
    next
      case (Some ev)
      from findById_Some [OF Some] inv
      have evb: "0 \<le> attendeeCount ev \<and> attendeeCount ev \<le> capacity ev"
        by (simp add: capacityInv_def)
      have sub: "set (snd (findOneAndUpdate (\<lambda>e. eid e = i) (updateData (body req)) (events d)))
                   \<subseteq> set (events d) \<union> {updateData (body req) ev}"
        using fou_set [of "\<lambda>e. eid e = i" "updateData (body req)" "events d"] Some
        by (simp add: findById_def)
      have good: "\<not> (truthyNum (b_capacity (body req))
                      \<and> the (b_capacity (body req)) < attendeeCount ev)
                  \<Longrightarrow> 0 \<le> attendeeCount (updateData (body req) ev)
                      \<and> attendeeCount (updateData (body req) ev)
                          \<le> capacity (updateData (body req) ev)"
        using evb by (auto simp: updateData_def)
      from inv Oid Some sub good show ?thesis
        by (auto simp: updateEvent_def eventUpdate_def capacityInv_def
                 split: option.splits if_splits prod.splits)
    qed
  qed
qed

lemma capacityInv_step: "capacityInv d \<Longrightarrow> capacityInv (step x d)"
  by (cases x)
     (simp_all add: capacityInv_createEvent capacityInv_updateEvent capacityInv_deleteEvent
        capacityInv_createRsvp capacityInv_cancelRsvp)

lemma capacityInv_run: "capacityInv d \<Longrightarrow> capacityInv (run ops d)"
  by (induction ops arbitrary: d) (simp_all add: capacityInv_step)

text \<open>
  Requests handled one after the other. Every event satisfies
  \<open>0 \<le> attendeeCount \<le> capacity\<close> after every operation that runs alone: the empty
  database satisfies it, each of createEvent, updateEvent, deleteEvent, createRsvp and
  cancelRsvp keeps it, and so does every sequence of them. A created event starts with
  \<open>attendeeCount = 0\<close>.
\<close>

theorem capacity_invariant:
  "capacityInv emptyDb
   \<and> capacityInv (run ops emptyDb)
   \<and> (capacityInv d \<longrightarrow> capacityInv (step x d) \<and> capacityInv (run ops d))
   \<and> (code (fst (createEvent req d)) = 201 \<longrightarrow>
        (\<exists>e. events (snd (createEvent req d)) = events d @ [e] \<and> attendeeCount e = 0))"
proof -
  have e: "capacityInv emptyDb" by (simp add: capacityInv_def emptyDb_def)
  have c: "code (fst (createEvent req d)) = 201 \<longrightarrow>
        (\<exists>e. events (snd (createEvent req d)) = events d @ [e] \<and> attendeeCount e = 0)"
    by (auto simp: createEvent_def split: sum.splits dest!: eventCreate_Inr)
  from e c show ?thesis by (simp add: capacityInv_step capacityInv_run)
qed

theorem capacity_invariant_witness:
  "events (run [CreateEvent ex_create_req, CreateRsvp ex_req] emptyDb) = [ex_event]
   \<and> capacityInv (run [CreateEvent ex_create_req, CreateRsvp ex_req] emptyDb)
   \<and> 0 \<le> attendeeCount ex_event \<and> attendeeCount ex_event \<le> capacity ex_event"
proof -
  have s1: "snd (createEvent ex_create_req emptyDb)
              = \<lparr>events = [ex_event\<lparr>attendeeCount := 0\<rparr>], rsvps = []\<rparr>"
    by (simp add: createEvent_def eventCreate_def freshId_def capacityValid_def Let_def
          ex_create_req_def ex_create_body_def ex_event_def emptyDb_def)
  have s2: "events (snd (createRsvp ex_req \<lparr>events = [ex_event\<lparr>attendeeCount := 0\<rparr>], rsvps = []\<rparr>))
              = [ex_event]"
    by (simp add: createRsvp_def joinTx_def admit_def activate_def rsvpCreate_def
          findRsvp_def findById_def Let_def ex_req_def ex_event_def)
  have r: "events (run [CreateEvent ex_create_req, CreateRsvp ex_req] emptyDb) = [ex_event]"
    by (simp add: s1 s2)
  from capacity_invariant [of "[CreateEvent ex_create_req, CreateRsvp ex_req]"] r
  show ?thesis by (simp add: capacityInv_def)
qed

section \<open>Who writes the count\<close>

lemma updateData_count: "attendeeCount (updateData b e) = attendeeCount e"
  by (simp add: updateData_def)

lemma updateData_eid: "eid (updateData b e) = eid e"
  by (simp add: updateData_def)

lemma counts_updateEvent:
  "map (\<lambda>e. (eid e, attendeeCount e)) (events (snd (updateEvent req d)))
     = map (\<lambda>e. (eid e, attendeeCount e)) (events d)"
proof -
  have k: "\<And>i. map (\<lambda>e. (eid e, attendeeCount e))
             (snd (findOneAndUpdate (\<lambda>e. eid e = i) (updateData (body req)) (events d)))
           = map (\<lambda>e. (eid e, attendeeCount e)) (events d)"
    by (rule fou_map_key) (simp add: updateData_count updateData_eid)
  show ?thesis
  proof (cases "eventUpdate req (case param req of Oid i \<Rightarrow> i | Malformed \<Rightarrow> 0) (events d)")
    case (Inl err)
    then show ?thesis
      by (auto simp: updateEvent_def split: id_param.splits option.splits)
  next
    case (Inr res)
    then have "snd res = snd (findOneAndUpdate
                 (\<lambda>e. eid e = (case param req of Oid i \<Rightarrow> i | Malformed \<Rightarrow> 0))
                 (updateData (body req)) (events d))"
      by (auto simp: eventUpdate_def split: option.splits if_splits)
    with Inr k show ?thesis
      by (auto simp: updateEvent_def split: id_param.splits option.splits prod.splits)
  qed
qed

text \<open>
  Claim C8. \<open>attendeeCount\<close> is written only by the two conditional updates: after
  createRsvp the event collection is either unchanged or the result of admit, after
  cancelRsvp either unchanged or the result of release. updateEvent leaves the count of
  every event as it was, whatever the request holds (an \<open>attendeeCount\<close> key in the body
  is never read); createEvent only appends an event with count 0; deleteEvent only
  removes a document.
\<close>

theorem attendeeCount_written_only_by_admit_release:
  "map (\<lambda>e. (eid e, attendeeCount e)) (events (snd (updateEvent req d)))
     = map (\<lambda>e. (eid e, attendeeCount e)) (events d)
   \<and> (events (snd (createRsvp req d)) = events d
        \<or> (\<exists>i. param req = Oid i \<and> events (snd (createRsvp req d)) = snd (admit i (events d))))
   \<and> (events (snd (cancelRsvp req d)) = events d
        \<or> (\<exists>i. param req = Oid i
                \<and> events (snd (cancelRsvp req d)) = snd (release i (events d))))
   \<and> (events (snd (createEvent req d)) = events d
        \<or> (\<exists>e. events (snd (createEvent req d)) = events d @ [e] \<and> attendeeCount e = 0))
   \<and> (events (snd (deleteEvent req d)) = events d
        \<or> (\<exists>i. events (snd (deleteEvent req d))
                  = findOneAndDelete (\<lambda>e. eid e = i) (events d)))"
proof -
  have j: "events (snd (createRsvp req d)) = events d
        \<or> (\<exists>i. param req = Oid i \<and> events (snd (createRsvp req d)) = snd (admit i (events d)))"
    by (auto simp: createRsvp_def joinTx_def
             split: id_param.splits option.splits prod.splits sum.splits if_splits)
  have l: "events (snd (cancelRsvp req d)) = events d
        \<or> (\<exists>i. param req = Oid i
                \<and> events (snd (cancelRsvp req d)) = snd (release i (events d)))"
    by (auto simp: cancelRsvp_def leaveTx_def
             split: id_param.splits option.splits prod.splits sum.splits if_splits)
  have c: "events (snd (createEvent req d)) = events d
        \<or> (\<exists>e. events (snd (createEvent req d)) = events d @ [e] \<and> attendeeCount e = 0)"
    by (auto simp: createEvent_def split: sum.splits dest!: eventCreate_Inr)
  have x: "events (snd (deleteEvent req d)) = events d
        \<or> (\<exists>i. events (snd (deleteEvent req d))
                  = findOneAndDelete (\<lambda>e. eid e = i) (events d))"
    by (auto simp: deleteEvent_def Let_def split: id_param.splits option.splits if_splits)
  from counts_updateEvent j l c x show ?thesis by blast
qed

theorem attendeeCount_written_only_by_admit_release_witness:
  "map (\<lambda>e. (eid e, attendeeCount e)) (events (snd (updateEvent ex_update_req ex_db_joined)))
     = [(1, 1)]
   \<and> map capacity (events (snd (updateEvent ex_update_req ex_db_joined))) = [5]"
proof -
  have c: "map capacity (events (snd (updateEvent ex_update_req ex_db_joined))) = [5]"
    by (simp add: updateEvent_def eventUpdate_def updateData_def findById_def truthyNum_def
          capacityValid_def ex_update_req_def ex_body_def ex_db_joined_def ex_event_def)
  from attendeeCount_written_only_by_admit_release [of ex_update_req ex_db_joined] c
  show ?thesis by (simp add: ex_db_joined_def ex_event_def)
qed

section \<open>One attendance document per pair\<close>

lemma rsvpSave_Inr:
  "rsvpSave doc s t rs = Inr (x, rs') \<Longrightarrow>
     rs' = map (\<lambda>r. if rid r = rid doc then r\<lparr>status := s, updatedAt := t\<rparr> else r) rs"
  by (auto simp: rsvpSave_def split: if_splits)

lemma rsvpSave_pairs:
  "rsvpSave doc s t rs = Inr (x, rs') \<Longrightarrow>
     map (\<lambda>r. (event r, user r)) rs' = map (\<lambda>r. (event r, user r)) rs"
  by (auto simp: rsvpSave_def split: if_splits)

lemma rsvpSave_rids: "rsvpSave doc s t rs = Inr (x, rs') \<Longrightarrow> map rid rs' = map rid rs"
  by (auto simp: rsvpSave_def split: if_splits)

lemma rsvpCreate_Inr:
  "rsvpCreate i u t rs = Inr (x, rs') \<Longrightarrow>
     rs' = rs @ [x] \<and> event x = i \<and> user x = u \<and> status x = Confirmed
     \<and> (\<forall>r \<in> set rs. (event r, user r) \<noteq> (i, u))"
  by (auto simp: rsvpCreate_def Let_def split: if_splits)

lemma activate_pairs:
  assumes "activate req i c rs = Inr (x, rs')"
    and "distinct (map (\<lambda>r. (event r, user r)) rs)"
  shows "distinct (map (\<lambda>r. (event r, user r)) rs')"
proof (cases c)
  case None
  with assms(1) have "rsvpCreate i (caller req) (now req) rs = Inr (x, rs')"
    by (simp add: activate_def split: option.splits)
  from rsvpCreate_Inr [OF this] assms(2) show ?thesis by auto
next
  case (Some doc)
  with assms(1) have "rsvpSave doc Confirmed (now req) rs = Inr (x, rs')"
    by (simp add: activate_def split: option.splits)
  from rsvpSave_pairs [OF this] assms(2) show ?thesis by simp
qed

lemma uniquePairs_joinTx: "uniquePairs d \<Longrightarrow> uniquePairs (snd (joinTx req i c d))"
  by (auto simp: joinTx_def uniquePairs_def split: prod.splits option.splits sum.splits
           dest: activate_pairs)

lemma uniquePairs_createRsvp: "uniquePairs d \<Longrightarrow> uniquePairs (snd (createRsvp req d))"
  by (auto simp: createRsvp_def uniquePairs_joinTx split: id_param.splits option.splits)

lemma uniquePairs_leaveTx: "uniquePairs d \<Longrightarrow> uniquePairs (snd (leaveTx req i r d))"
  by (auto simp: leaveTx_def uniquePairs_def split: prod.splits option.splits sum.splits
           dest: rsvpSave_pairs)

lemma uniquePairs_cancelRsvp: "uniquePairs d \<Longrightarrow> uniquePairs (snd (cancelRsvp req d))"
  by (auto simp: cancelRsvp_def uniquePairs_leaveTx split: id_param.splits option.splits)

lemma rsvps_createEvent: "rsvps (snd (createEvent req d)) = rsvps d"
  by (auto simp: createEvent_def split: sum.splits)

lemma rsvps_updateEvent: "rsvps (snd (updateEvent req d)) = rsvps d"
  by (auto simp: updateEvent_def split: id_param.splits option.splits sum.splits)

lemma uniquePairs_deleteEvent: "uniquePairs d \<Longrightarrow> uniquePairs (snd (deleteEvent req d))"
  by (auto simp: deleteEvent_def uniquePairs_def Let_def distinct_map_filter
           split: id_param.splits option.splits)

lemma uniquePairs_step: "uniquePairs d \<Longrightarrow> uniquePairs (step x d)"
  by (cases x)
     (simp_all add: uniquePairs_createRsvp uniquePairs_cancelRsvp uniquePairs_deleteEvent,
      simp_all add: uniquePairs_def rsvps_createEvent rsvps_updateEvent)

lemma uniquePairs_run: "uniquePairs d \<Longrightarrow> uniquePairs (run ops d)"
  by (induction ops arbitrary: d) (simp_all add: uniquePairs_step)

lemma filter_key_le_1:
  "distinct (map k xs) \<Longrightarrow> length (filter (\<lambda>x. k x = a \<and> P x) xs) \<le> 1"
proof (induction xs)
  case Nil
  then show ?case by simp
next
  case (Cons x xs)
  show ?case
  proof (cases "k x = a")
    case True
    from Cons.prems have "k x \<notin> k ` set xs" by simp
    with True have "\<forall>y \<in> set xs. k y \<noteq> a" by blast
    then have "filter (\<lambda>x. k x = a \<and> P x) xs = []" by (simp add: filter_empty_conv)
    then show ?thesis by simp
  next
    case False
    with Cons show ?thesis by simp
  qed
qed

lemma activeRecords_le_1: "uniquePairs d \<Longrightarrow> length (activeRecords i u d) \<le> 1"
proof -
  assume "uniquePairs d"
  then have "length (filter (\<lambda>r. (event r, user r) = (i, u) \<and> status r = Confirmed) (rsvps d)) \<le> 1"
    unfolding uniquePairs_def by (rule filter_key_le_1)
  moreover have "(\<lambda>r. (event r, user r) = (i, u) \<and> status r = Confirmed)
                 = (\<lambda>r. event r = i \<and> user r = u \<and> status r = Confirmed)"
    by auto
  ultimately show ?thesis by (simp add: activeRecords_def)
qed

lemma rejoin_same_rows:
  assumes "param req = Oid i" and "findRsvp i (caller req) Cancelled (rsvps d) = Some c"
  shows "map rid (rsvps (snd (createRsvp req d))) = map rid (rsvps d)"
  using assms
  by (auto simp: createRsvp_def joinTx_def activate_def
           split: option.splits prod.splits sum.splits dest: rsvpSave_rids)

lemma leave_same_rows: "map rid (rsvps (snd (cancelRsvp req d))) = map rid (rsvps d)"
  by (auto simp: cancelRsvp_def leaveTx_def
           split: id_param.splits option.splits prod.splits sum.splits dest: rsvpSave_rids)

section \<open>Join twice, join then leave\<close>

lemma find_map_upd:
  "(\<And>x. k (u x) = k x) \<Longrightarrow>
     find (\<lambda>x. k x = i) (map (\<lambda>x. if k x = i then u x else x) xs)
       = map_option u (find (\<lambda>x. k x = i) xs)"
  by (induction xs) auto

lemma admit_eq:
  assumes "uniqueEventIds d" and "findById i (events d) = Some e"
  shows "admit i (events d) =
           (if attendeeCount e < capacity e
            then (Some (e\<lparr>attendeeCount := attendeeCount e + 1\<rparr>),
                  map (\<lambda>x. if eid x = i then x\<lparr>attendeeCount := attendeeCount x + 1\<rparr> else x)
                    (events d))
            else (None, events d))"
  using assms unfolding admit_def uniqueEventIds_def findById_def by (rule fou_distinct)

lemma release_eq:
  assumes "distinct (map eid evs)" and "findById i evs = Some e"
  shows "release i evs =
           (if attendeeCount e > 0
            then (Some (e\<lparr>attendeeCount := attendeeCount e - 1\<rparr>),
                  map (\<lambda>x. if eid x = i then x\<lparr>attendeeCount := attendeeCount x - 1\<rparr> else x) evs)
            else (None, evs))"
  using assms unfolding release_def findById_def
  by (rule fou_distinct [where c = "\<lambda>e. attendeeCount e > 0"])

lemma findById_admitted:
  "findById i (map (\<lambda>x. if eid x = i then x\<lparr>attendeeCount := attendeeCount x + 1\<rparr> else x) evs)
     = map_option (\<lambda>x. x\<lparr>attendeeCount := attendeeCount x + 1\<rparr>) (findById i evs)"
  unfolding findById_def
  by (rule find_map_upd [where k = eid and u = "\<lambda>x. x\<lparr>attendeeCount := attendeeCount x + 1\<rparr>"])
     simp

lemma release_after_admit:
  "map (\<lambda>x. if eid x = i then x\<lparr>attendeeCount := attendeeCount x - 1\<rparr> else x)
     (map (\<lambda>x. if eid x = i then x\<lparr>attendeeCount := attendeeCount x + 1\<rparr> else x) evs) = evs"
  by (induction evs) auto

lemma eid_admitted:
  "map eid (map (\<lambda>x. if eid x = i then x\<lparr>attendeeCount := attendeeCount x + 1\<rparr> else x) evs)
     = map eid evs"
  by (induction evs) auto

lemma activate_succeeds:
  assumes "fault req = None"
    and "\<forall>r \<in> set rs. status r \<noteq> Waitlist"
    and "findRsvp i (caller req) Confirmed rs = None"
  shows "\<exists>x rs'. activate req i (findRsvp i (caller req) Cancelled rs) rs = Inr (x, rs')"
proof (cases "findRsvp i (caller req) Cancelled rs")
  case None
  have "\<not> (\<exists>r \<in> set rs. event r = i \<and> user r = caller req)"
  proof
    assume "\<exists>r \<in> set rs. event r = i \<and> user r = caller req"
    then obtain r where r: "r \<in> set rs" "event r = i" "user r = caller req" by blast
    with assms(2) have "status r \<noteq> Waitlist" by blast
    moreover from r None have "status r \<noteq> Cancelled" by (auto simp: findRsvp_None)
    moreover from r assms(3) have "status r \<noteq> Confirmed" by (auto simp: findRsvp_None)
    ultimately show False by (cases "status r") simp_all
  qed
  with None assms(1) show ?thesis
    by (simp add: activate_def rsvpCreate_def Let_def)
next
  case (Some c)
  from findRsvp_Some [OF Some] have "\<exists>r \<in> set rs. rid r = rid c" by blast
  with Some assms(1) show ?thesis
    by (simp add: activate_def rsvpSave_def)
qed

lemma activate_confirms:
  assumes "activate req i (findRsvp i (caller req) Cancelled rs) rs = Inr (x, rs')"
  shows "\<exists>r \<in> set rs'. event r = i \<and> user r = caller req \<and> status r = Confirmed"
proof (cases "findRsvp i (caller req) Cancelled rs")
  case None
  with assms have "rsvpCreate i (caller req) (now req) rs = Inr (x, rs')"
    by (simp add: activate_def split: option.splits)
  from rsvpCreate_Inr [OF this] show ?thesis by auto
next
  case (Some c)
  with assms have sv: "rsvpSave c Confirmed (now req) rs = Inr (x, rs')"
    by (simp add: activate_def split: option.splits)
  from findRsvp_Some [OF Some] have c: "c \<in> set rs" "event c = i" "user c = caller req"
    by simp_all
  let ?f = "\<lambda>r. if rid r = rid c then r\<lparr>status := Confirmed, updatedAt := now req\<rparr> else r"
  from rsvpSave_Inr [OF sv] c(1) have "?f c \<in> set rs'" by auto
  moreover have "event (?f c) = i \<and> user (?f c) = caller req \<and> status (?f c) = Confirmed"
    using c by simp
  ultimately show ?thesis by blast
qed

lemma join_commits:
  assumes "uniqueEventIds d" and "noWaitlist d"
    and "param req = Oid i" and "fault req = None"
    and "findById i (events d) = Some ev" and "\<not> date ev < now req"
    and "attendeeCount ev < capacity ev"
    and "findRsvp i (caller req) Confirmed (rsvps d) = None"
  shows "\<exists>p rs'. createRsvp req d =
           (Response 201 ''RSVP successful! You are registered for this event.'' p,
            \<lparr>events = map (\<lambda>x. if eid x = i then x\<lparr>attendeeCount := attendeeCount x + 1\<rparr>
                                else x) (events d),
             rsvps = rs'\<rparr>)
           \<and> (\<exists>r \<in> set rs'. event r = i \<and> user r = caller req \<and> status r = Confirmed)"
proof -
  from assms(2) have nw: "\<forall>r \<in> set (rsvps d). status r \<noteq> Waitlist"
    by (simp add: noWaitlist_def)
  from activate_succeeds [OF assms(4) nw assms(8)] obtain x rs'
    where act: "activate req i (findRsvp i (caller req) Cancelled (rsvps d)) (rsvps d)
                  = Inr (x, rs')"
    by blast
  from activate_confirms [OF act]
  have conf: "\<exists>r \<in> set rs'. event r = i \<and> user r = caller req \<and> status r = Confirmed" .
  from admit_eq [OF assms(1) assms(5)] assms(7)
  have adm: "admit i (events d) =
               (Some (ev\<lparr>attendeeCount := attendeeCount ev + 1\<rparr>),
                map (\<lambda>x. if eid x = i then x\<lparr>attendeeCount := attendeeCount x + 1\<rparr> else x)
                  (events d))"
    by simp
  from assms(3,5,6,8) adm act conf show ?thesis
    by (simp add: createRsvp_def joinTx_def)
qed

text \<open>
  Claim C6. In a state where the caller has no confirmed document for the event and the
  event is in the future with a free slot, two joins in a row for the same pair answer
  201 and then 400 "You have already RSVPed to this event", and the event's
  \<open>attendeeCount\<close> afterwards is its old value plus exactly 1. The state has unique event
  ids and no document with the unused status waitlist; the first request meets no
  injected storage fault; the event is still in the future at the second request.
\<close>

theorem join_twice:
  assumes "uniqueEventIds d" and "noWaitlist d"
    and "param req = Oid i" and "fault req = None"
    and "findById i (events d) = Some ev" and "\<not> date ev < now req"
    and "attendeeCount ev < capacity ev"
    and "findRsvp i (caller req) Confirmed (rsvps d) = None"
    and "param req2 = Oid i" and "caller req2 = caller req" and "\<not> date ev < now req2"
  shows "code (fst (createRsvp req d)) = 201
         \<and> fst (createRsvp req2 (snd (createRsvp req d)))
             = Response 400 ''You have already RSVPed to this event'' NoPayload
         \<and> findById i (events (snd (createRsvp req2 (snd (createRsvp req d)))))
             = Some (ev\<lparr>attendeeCount := attendeeCount ev + 1\<rparr>)"
proof -
  from join_commits [OF assms(1-8)] obtain p rs'
    where j: "createRsvp req d =
           (Response 201 ''RSVP successful! You are registered for this event.'' p,
            \<lparr>events = map (\<lambda>x. if eid x = i then x\<lparr>attendeeCount := attendeeCount x + 1\<rparr>
                                else x) (events d),
             rsvps = rs'\<rparr>)"
      and conf: "\<exists>r \<in> set rs'. event r = i \<and> user r = caller req \<and> status r = Confirmed"
    by blast
  let ?d1 = "snd (createRsvp req d)"
  from j have ev1: "findById i (events ?d1) = Some (ev\<lparr>attendeeCount := attendeeCount ev + 1\<rparr>)"
    by (simp add: findById_admitted assms(5))
  from j conf have "findRsvp i (caller req2) Confirmed (rsvps ?d1) \<noteq> None"
    by (simp add: findRsvp_None assms(10))
  then obtain r where r: "findRsvp i (caller req2) Confirmed (rsvps ?d1) = Some r" by blast
  from ev1 r assms(9,11)
  have second: "createRsvp req2 ?d1
                  = (Response 400 ''You have already RSVPed to this event'' NoPayload, ?d1)"
    by (simp add: createRsvp_def)
  from j second ev1 show ?thesis by simp
qed

theorem join_twice_witness:
  "uniqueEventIds ex_db_new \<and> noWaitlist ex_db_new \<and> param ex_req = Oid 1
   \<and> fault ex_req = None
   \<and> findById 1 (events ex_db_new) = Some (ex_event\<lparr>attendeeCount := 0\<rparr>)
   \<and> findRsvp 1 (caller ex_req) Confirmed (rsvps ex_db_new) = None
   \<and> code (fst (createRsvp ex_req ex_db_new)) = 201
   \<and> fst (createRsvp ex_req (snd (createRsvp ex_req ex_db_new)))
       = Response 400 ''You have already RSVPed to this event'' NoPayload
   \<and> findById 1 (events (snd (createRsvp ex_req (snd (createRsvp ex_req ex_db_new)))))
       = Some ex_event"
proof -
  have u: "uniqueEventIds ex_db_new" by (simp add: uniqueEventIds_def ex_db_new_def)
  have w: "noWaitlist ex_db_new" by (simp add: noWaitlist_def ex_db_new_def)
  have p: "param ex_req = Oid 1" and f: "fault ex_req = None" by (simp_all add: ex_req_def)
  have e: "findById 1 (events ex_db_new) = Some (ex_event\<lparr>attendeeCount := 0\<rparr>)"
    by (simp add: findById_def ex_db_new_def ex_event_def)
  have t: "\<not> date (ex_event\<lparr>attendeeCount := 0\<rparr>) < now ex_req"
    by (simp add: ex_event_def ex_req_def)
  have c: "attendeeCount (ex_event\<lparr>attendeeCount := 0\<rparr>)
             < capacity (ex_event\<lparr>attendeeCount := 0\<rparr>)"
    by (simp add: ex_event_def)
  have n: "findRsvp 1 (caller ex_req) Confirmed (rsvps ex_db_new) = None"
    by (simp add: findRsvp_def ex_db_new_def)
  from join_twice [OF u w p f e t c n p refl t] u w p f e n show ?thesis
    by (simp add: ex_event_def)
qed

lemma join_201:
  assumes "createRsvp req d = (Response 201 m p, d1)"
  shows "\<exists>i ev ue x. param req = Oid i \<and> findById i (events d) = Some ev
           \<and> findRsvp i (caller req) Confirmed (rsvps d) = None
           \<and> admit i (events d) = (Some ue, events d1)
           \<and> activate req i (findRsvp i (caller req) Cancelled (rsvps d)) (rsvps d)
               = Inr (x, rsvps d1)"
  using assms
  by (auto simp: createRsvp_def joinTx_def
           split: id_param.splits option.splits prod.splits sum.splits if_splits)

lemma same_pair_same_doc:
  assumes "distinct (map (\<lambda>r. (event r, user r)) rs)" and "x \<in> set rs" and "y \<in> set rs"
    and "event x = event y" and "user x = user y"
  shows "x = y"
proof -
  from assms(1) have "inj_on (\<lambda>r. (event r, user r)) (set rs)" by (simp add: distinct_map)
  with assms(2-5) show ?thesis by (auto dest: inj_onD)
qed

lemma flipped_none_confirmed:
  assumes "distinct (map (\<lambda>r. (event r, user r)) rs)"
    and "r \<in> set rs" and "event r = i" and "user r = u"
  shows "findRsvp i u Confirmed
           (map (\<lambda>x. if rid x = rid r then x\<lparr>status := Cancelled, updatedAt := t\<rparr> else x) rs)
         = None"
proof -
  have "\<And>y. y \<in> set rs \<Longrightarrow> event y = i \<Longrightarrow> user y = u \<Longrightarrow> rid y = rid r"
  proof -
    fix y assume "y \<in> set rs" "event y = i" "user y = u"
    with assms have "y = r" by (intro same_pair_same_doc [of rs y r]) simp_all
    then show "rid y = rid r" by simp
  qed
  then show ?thesis by (auto simp: findRsvp_None)
qed

text \<open>
  Claim C7. When a join succeeds (answers 201) and the same caller then leaves the same
  event, the leave answers 200, the event collection, and so the event's
  \<open>attendeeCount\<close>, is what it was before the join, and the status query afterwards
  answers \<open>hasRsvped = false\<close>. The state before the join has unique event ids, one
  document per pair and counts that are not negative; the leave meets no injected
  storage fault.
\<close>

theorem join_then_leave:
  assumes "uniqueEventIds d" and "uniquePairs d" and "capacityInv d"
    and "createRsvp req d = (Response 201 m p, d1)"
    and "param req2 = param req" and "caller req2 = caller req" and "fault req2 = None"
  shows "code (fst (cancelRsvp req2 d1)) = 200
         \<and> events (snd (cancelRsvp req2 d1)) = events d
         \<and> getRsvpStatus req2 (snd (cancelRsvp req2 d1)) = Response 200 [] (Status False None)"
proof -
  from join_201 [OF assms(4)] obtain i ev ue x
    where par: "param req = Oid i" and ev: "findById i (events d) = Some ev"
      and adm: "admit i (events d) = (Some ue, events d1)"
      and act: "activate req i (findRsvp i (caller req) Cancelled (rsvps d)) (rsvps d)
                  = Inr (x, rsvps d1)"
    by blast
  let ?up = "\<lambda>x. if eid x = i then x\<lparr>attendeeCount := attendeeCount x + 1\<rparr> else x"
  from admit_eq [OF assms(1) ev] adm
  have evs1: "events d1 = map ?up (events d)" and room: "attendeeCount ev < capacity ev"
    by (auto split: if_splits)
  from findById_Some [OF ev] assms(3) have nonneg: "0 \<le> attendeeCount ev"
    by (simp add: capacityInv_def)
  have ev1: "findById i (events d1) = Some (ev\<lparr>attendeeCount := attendeeCount ev + 1\<rparr>)"
    by (simp add: evs1 findById_admitted ev)
  from assms(1) have "distinct (map eid (events d))" by (simp add: uniqueEventIds_def)
  then have dist1: "distinct (map eid (events d1))"
    by (simp only: evs1 eid_admitted)
  have undone: "map (\<lambda>x. if eid x = i then x\<lparr>attendeeCount := attendeeCount x - 1\<rparr> else x)
                (events d1) = events d"
    by (simp only: evs1 release_after_admit)
  from release_eq [OF dist1 ev1] nonneg
  have "release i (events d1)
          = (Some ev, map (\<lambda>x. if eid x = i then x\<lparr>attendeeCount := attendeeCount x - 1\<rparr>
                                else x) (events d1))"
    by simp
  then have rel: "release i (events d1) = (Some ev, events d)"
    by (simp only: undone)
  from assms(2) have "distinct (map (\<lambda>r. (event r, user r)) (rsvps d))"
    by (simp add: uniquePairs_def)
  from activate_pairs [OF act this]
  have pairs1: "distinct (map (\<lambda>r. (event r, user r)) (rsvps d1))" .
  from activate_confirms [OF act]
  have "findRsvp i (caller req) Confirmed (rsvps d1) \<noteq> None"
    by (simp add: findRsvp_None)
  then obtain r where r: "findRsvp i (caller req) Confirmed (rsvps d1) = Some r" by blast
  from findRsvp_Some [OF r]
  have rin: "r \<in> set (rsvps d1)" and re: "event r = i" and ru: "user r = caller req"
    by simp_all
  let ?rs2 = "map (\<lambda>x. if rid x = rid r
                       then x\<lparr>status := Cancelled, updatedAt := now req2\<rparr> else x) (rsvps d1)"
  from rin have sv: "rsvpSave r Cancelled (now req2) (rsvps d1)
                       = Inr (r\<lparr>status := Cancelled, updatedAt := now req2\<rparr>, ?rs2)"
    by (auto simp: rsvpSave_def)
  from par assms(5,6,7) r ev1 sv rel
  have leave: "cancelRsvp req2 d1
                 = (Response 200 ''RSVP cancelled successfully.'' (EventOnly (eventView ev)),
                    \<lparr>events = events d, rsvps = ?rs2\<rparr>)"
    by (simp add: cancelRsvp_def leaveTx_def)
  from flipped_none_confirmed [OF pairs1 rin re ru]
  have "findRsvp i (caller req) Confirmed ?rs2 = None" .
  with par assms(5,6)
  have "getRsvpStatus req2 \<lparr>events = events d, rsvps = ?rs2\<rparr>
          = Response 200 [] (Status False None)"
    by (simp add: getRsvpStatus_def)
  with leave show ?thesis by simp
qed

theorem join_then_leave_witness:
  "uniqueEventIds ex_db_new \<and> uniquePairs ex_db_new \<and> capacityInv ex_db_new
   \<and> createRsvp ex_req ex_db_new
       = (Response 201 ''RSVP successful! You are registered for this event.''
            (RsvpAndEvent (1, 1, Confirmed, 50) (1, ''Meetup'', 1, 2, 1)),
          \<lparr>events = [ex_event], rsvps = [ex_rsvp_new]\<rparr>)
   \<and> code (fst (cancelRsvp ex_req \<lparr>events = [ex_event], rsvps = [ex_rsvp_new]\<rparr>)) = 200
   \<and> events (snd (cancelRsvp ex_req \<lparr>events = [ex_event], rsvps = [ex_rsvp_new]\<rparr>))
       = events ex_db_new
   \<and> getRsvpStatus ex_req (snd (cancelRsvp ex_req \<lparr>events = [ex_event], rsvps = [ex_rsvp_new]\<rparr>))
       = Response 200 [] (Status False None)"
proof -
  have u: "uniqueEventIds ex_db_new" by (simp add: uniqueEventIds_def ex_db_new_def)
  have q: "uniquePairs ex_db_new" by (simp add: uniquePairs_def ex_db_new_def)
  have c: "capacityInv ex_db_new" by (simp add: capacityInv_def ex_db_new_def ex_event_def)
  have j: "createRsvp ex_req ex_db_new
       = (Response 201 ''RSVP successful! You are registered for this event.''
            (RsvpAndEvent (1, 1, Confirmed, 50) (1, ''Meetup'', 1, 2, 1)),
          \<lparr>events = [ex_event], rsvps = [ex_rsvp_new]\<rparr>)"
    by (simp add: createRsvp_def joinTx_def admit_def activate_def rsvpCreate_def
          findRsvp_def findById_def freshId_def eventView_def Let_def ex_req_def ex_event_def
          ex_db_new_def ex_rsvp_new_def)
  from join_then_leave [OF u q c j refl refl] u q c j show ?thesis
    by (simp add: ex_req_def)
qed

section \<open>States the handlers produce\<close>

lemma events_createRsvp:
  "events (snd (createRsvp req d)) = events d
   \<or> (\<exists>i. param req = Oid i \<and> events (snd (createRsvp req d)) = snd (admit i (events d)))"
  by (auto simp: createRsvp_def joinTx_def
           split: id_param.splits option.splits prod.splits sum.splits if_splits)

lemma events_cancelRsvp:
  "events (snd (cancelRsvp req d)) = events d
   \<or> (\<exists>i. param req = Oid i
           \<and> events (snd (cancelRsvp req d)) = snd (release i (events d)))"
  by (auto simp: cancelRsvp_def leaveTx_def
           split: id_param.splits option.splits prod.splits sum.splits if_splits)

lemma eid_admit: "map eid (snd (admit i evs)) = map eid evs"
  unfolding admit_def by (rule fou_map_key) simp

lemma eid_release: "map eid (snd (release i evs)) = map eid evs"
  unfolding release_def by (rule fou_map_key) simp

lemma uniqueEventIds_createRsvp:
  "uniqueEventIds d \<Longrightarrow> uniqueEventIds (snd (createRsvp req d))"
  using events_createRsvp [of req d] by (auto simp: uniqueEventIds_def eid_admit)

lemma uniqueEventIds_cancelRsvp:
  "uniqueEventIds d \<Longrightarrow> uniqueEventIds (snd (cancelRsvp req d))"
  using events_cancelRsvp [of req d] by (auto simp: uniqueEventIds_def eid_release)

lemma uniqueEventIds_createEvent:
  "uniqueEventIds d \<Longrightarrow> uniqueEventIds (snd (createEvent req d))"
  using freshId_fresh [of "map eid (events d)"]
  by (auto simp: createEvent_def uniqueEventIds_def split: sum.splits dest!: eventCreate_Inr)

lemma uniqueEventIds_updateEvent:
  "uniqueEventIds d \<Longrightarrow> uniqueEventIds (snd (updateEvent req d))"
proof -
  assume u: "uniqueEventIds d"
  from counts_updateEvent [of req d]
  have "map fst (map (\<lambda>e. (eid e, attendeeCount e)) (events (snd (updateEvent req d))))
          = map fst (map (\<lambda>e. (eid e, attendeeCount e)) (events d))"
    by (simp only:)
  then have "map eid (events (snd (updateEvent req d))) = map eid (events d)"
    by (simp add: comp_def)
  with u show ?thesis by (simp add: uniqueEventIds_def)
qed

lemma uniqueEventIds_deleteEvent:
  "uniqueEventIds d \<Longrightarrow> uniqueEventIds (snd (deleteEvent req d))"
  by (auto simp: deleteEvent_def uniqueEventIds_def Let_def fod_distinct
           split: id_param.splits option.splits)

lemma uniqueEventIds_step: "uniqueEventIds d \<Longrightarrow> uniqueEventIds (step x d)"
  by (cases x)
     (simp_all add: uniqueEventIds_createEvent uniqueEventIds_updateEvent
        uniqueEventIds_deleteEvent uniqueEventIds_createRsvp uniqueEventIds_cancelRsvp)

lemma activate_noWaitlist:
  assumes "activate req i c rs = Inr (x, rs')" and "\<forall>r \<in> set rs. status r \<noteq> Waitlist"
  shows "\<forall>r \<in> set rs'. status r \<noteq> Waitlist"
proof (cases c)
  case None
  with assms(1) have "rsvpCreate i (caller req) (now req) rs = Inr (x, rs')"
    by (simp add: activate_def split: option.splits)
  from rsvpCreate_Inr [OF this] assms(2) show ?thesis by auto
next
  case (Some doc)
  with assms(1) have "rsvpSave doc Confirmed (now req) rs = Inr (x, rs')"
    by (simp add: activate_def split: option.splits)
  from rsvpSave_Inr [OF this] assms(2) show ?thesis by auto
qed

lemma noWaitlist_createRsvp: "noWaitlist d \<Longrightarrow> noWaitlist (snd (createRsvp req d))"
  by (auto simp: createRsvp_def joinTx_def noWaitlist_def
           split: id_param.splits option.splits prod.splits sum.splits if_splits
           dest: activate_noWaitlist)

lemma noWaitlist_cancelRsvp: "noWaitlist d \<Longrightarrow> noWaitlist (snd (cancelRsvp req d))"
  by (auto simp: cancelRsvp_def leaveTx_def noWaitlist_def
           split: id_param.splits option.splits prod.splits sum.splits if_splits
           dest!: rsvpSave_Inr)

lemma noWaitlist_deleteEvent: "noWaitlist d \<Longrightarrow> noWaitlist (snd (deleteEvent req d))"
  by (auto simp: deleteEvent_def noWaitlist_def Let_def split: id_param.splits option.splits)

lemma noWaitlist_step: "noWaitlist d \<Longrightarrow> noWaitlist (step x d)"
  by (cases x)
     (simp_all add: noWaitlist_createRsvp noWaitlist_cancelRsvp noWaitlist_deleteEvent,
      simp_all add: noWaitlist_def rsvps_createEvent rsvps_updateEvent)

text \<open>
  Every state reached from the empty database has unique event ids and no document with
  status waitlist: the two conditions on the state in the theorems on repeated joins and
  on join followed by leave hold of every state the application can be in.
\<close>

lemma reachable_wellformed:
  "uniqueEventIds (run ops emptyDb) \<and> noWaitlist (run ops emptyDb)"
proof -
  have u: "\<And>d. uniqueEventIds d \<Longrightarrow> uniqueEventIds (run ops d)"
    by (induction ops) (simp_all add: uniqueEventIds_step)
  have w: "\<And>d. noWaitlist d \<Longrightarrow> noWaitlist (run ops d)"
    by (induction ops) (simp_all add: noWaitlist_step)
  have "uniqueEventIds emptyDb" and "noWaitlist emptyDb"
    by (simp_all add: uniqueEventIds_def noWaitlist_def emptyDb_def)
  with u w show ?thesis by blast
qed

section \<open>The flip between confirmed and cancelled\<close>

lemma flipped_only_status:
  assumes "distinct (map (\<lambda>r. (event r, user r)) rs)"
    and "r \<in> set rs" and "event r = i" and "user r = u" and "s' \<noteq> s"
  shows "findRsvp i u s'
           (map (\<lambda>x. if rid x = rid r then x\<lparr>status := s, updatedAt := t\<rparr> else x) rs)
         = None"
proof -
  have "\<And>y. y \<in> set rs \<Longrightarrow> event y = i \<Longrightarrow> user y = u \<Longrightarrow> rid y = rid r"
  proof -
    fix y assume "y \<in> set rs" "event y = i" "user y = u"
    with assms(1-4) have "y = r" by (intro same_pair_same_doc [of rs y r]) simp_all
    then show "rid y = rid r" by simp
  qed
  with assms(5) show ?thesis by (auto simp: findRsvp_None)
qed

lemma flipped_member:
  "r \<in> set rs \<Longrightarrow>
     r\<lparr>status := s, updatedAt := t\<rparr>
       \<in> set (map (\<lambda>x. if rid x = rid r then x\<lparr>status := s, updatedAt := t\<rparr> else x) rs)"
  by force

lemma leave_flips:
  assumes "uniqueEventIds d" and "param req = Oid i" and "fault req = None"
    and "findRsvp i (caller req) Confirmed (rsvps d) = Some r"
    and "findById i (events d) = Some ev" and "0 < attendeeCount ev"
  shows "code (fst (cancelRsvp req d)) = 200
         \<and> rsvps (snd (cancelRsvp req d))
             = map (\<lambda>x. if rid x = rid r
                         then x\<lparr>status := Cancelled, updatedAt := now req\<rparr> else x) (rsvps d)"
proof -
  from assms(1) have "distinct (map eid (events d))" by (simp add: uniqueEventIds_def)
  from release_eq [OF this assms(5)] assms(6)
  have rel: "\<exists>ue evs'. release i (events d) = (Some ue, evs')" by simp
  from findRsvp_Some [OF assms(4)] have "\<exists>x \<in> set (rsvps d). rid x = rid r" by blast
  then have sv: "rsvpSave r Cancelled (now req) (rsvps d)
                   = Inr (r\<lparr>status := Cancelled, updatedAt := now req\<rparr>,
                          map (\<lambda>x. if rid x = rid r
                                   then x\<lparr>status := Cancelled, updatedAt := now req\<rparr> else x)
                            (rsvps d))"
    by (simp add: rsvpSave_def)
  from rel obtain ue evs' where "release i (events d) = (Some ue, evs')" by blast
  with assms(2-5) sv show ?thesis
    by (simp add: cancelRsvp_def leaveTx_def)
qed

lemma rejoin_flips:
  assumes "uniqueEventIds d" and "param req = Oid i" and "fault req = None"
    and "findById i (events d) = Some ev" and "\<not> date ev < now req"
    and "attendeeCount ev < capacity ev"
    and "findRsvp i (caller req) Confirmed (rsvps d) = None"
    and "findRsvp i (caller req) Cancelled (rsvps d) = Some c"
  shows "code (fst (createRsvp req d)) = 201
         \<and> rsvps (snd (createRsvp req d))
             = map (\<lambda>x. if rid x = rid c
                         then x\<lparr>status := Confirmed, updatedAt := now req\<rparr> else x) (rsvps d)"
proof -
  from admit_eq [OF assms(1) assms(4)] assms(6)
  have adm: "\<exists>ue evs'. admit i (events d) = (Some ue, evs')" by simp
  from findRsvp_Some [OF assms(8)] have "\<exists>x \<in> set (rsvps d). rid x = rid c" by blast
  with assms(3,8)
  have act: "activate req i (findRsvp i (caller req) Cancelled (rsvps d)) (rsvps d)
               = Inr (c\<lparr>status := Confirmed, updatedAt := now req\<rparr>,
                      map (\<lambda>x. if rid x = rid c
                               then x\<lparr>status := Confirmed, updatedAt := now req\<rparr> else x)
                        (rsvps d))"
    by (simp add: activate_def rsvpSave_def)
  from adm obtain ue evs' where "admit i (events d) = (Some ue, evs')" by blast
  with assms(2,4,5,7) act show ?thesis
    by (simp add: createRsvp_def joinTx_def)
qed

lemma uniquePairs_stale:
  "uniquePairs d \<Longrightarrow>
     uniquePairs (snd (joinTx req i c d)) \<and> uniquePairs (snd (leaveTx req i r d))"
  by (simp add: uniquePairs_joinTx uniquePairs_leaveTx)

text \<open>
  Claim C3. For every (event, caller) pair at most one attendance document is confirmed
  at any time: the RSVP collection never holds two documents of the same pair, in the
  empty database, after every sequence of operations, and after a join or leave
  transaction that runs on a stale read. The insert is refused with a duplicate key
  error whenever a document of the pair exists, whatever its status. One document is
  flipped instead of a row being added per cycle: a leave that answers 200 sets the
  caller's confirmed document to cancelled and changes no other field but the update
  date, after which the pair has no confirmed document; a join that finds the pair's
  cancelled document answers 201 and sets that same document to confirmed, after which
  the pair has no cancelled document; the list of row ids is the same before and after
  both.
\<close>

theorem one_active_record_per_pair:
  "uniquePairs emptyDb
   \<and> length (activeRecords i u (run ops emptyDb)) \<le> 1
   \<and> (uniquePairs d \<longrightarrow>
        length (activeRecords i u d) \<le> 1 \<and> uniquePairs (step x d) \<and> uniquePairs (run ops d)
        \<and> uniquePairs (snd (joinTx req i stale d)) \<and> uniquePairs (snd (leaveTx req i found d)))
   \<and> ((\<exists>r \<in> set rs. event r = i \<and> user r = u) \<longrightarrow> rsvpCreate i u t rs = Inl DuplicateKey)
   \<and> (param req = Oid i \<and> findRsvp i (caller req) Cancelled (rsvps d) = Some c \<longrightarrow>
        map rid (rsvps (snd (createRsvp req d))) = map rid (rsvps d))
   \<and> map rid (rsvps (snd (cancelRsvp req d))) = map rid (rsvps d)
   \<and> (uniqueEventIds d \<and> uniquePairs d \<and> param req = Oid i \<and> fault req = None
        \<and> findRsvp i (caller req) Confirmed (rsvps d) = Some r
        \<and> findById i (events d) = Some ev \<and> 0 < attendeeCount ev \<longrightarrow>
          code (fst (cancelRsvp req d)) = 200
          \<and> rsvps (snd (cancelRsvp req d))
              = map (\<lambda>x. if rid x = rid r
                          then x\<lparr>status := Cancelled, updatedAt := now req\<rparr> else x) (rsvps d)
          \<and> r\<lparr>status := Cancelled, updatedAt := now req\<rparr> \<in> set (rsvps (snd (cancelRsvp req d)))
          \<and> findRsvp i (caller req) Confirmed (rsvps (snd (cancelRsvp req d))) = None)
   \<and> (uniqueEventIds d \<and> uniquePairs d \<and> param req = Oid i \<and> fault req = None
        \<and> findById i (events d) = Some ev \<and> \<not> date ev < now req
        \<and> attendeeCount ev < capacity ev
        \<and> findRsvp i (caller req) Confirmed (rsvps d) = None
        \<and> findRsvp i (caller req) Cancelled (rsvps d) = Some c \<longrightarrow>
          code (fst (createRsvp req d)) = 201
          \<and> rsvps (snd (createRsvp req d))
              = map (\<lambda>x. if rid x = rid c
                          then x\<lparr>status := Confirmed, updatedAt := now req\<rparr> else x) (rsvps d)
          \<and> c\<lparr>status := Confirmed, updatedAt := now req\<rparr> \<in> set (rsvps (snd (createRsvp req d)))
          \<and> findRsvp i (caller req) Cancelled (rsvps (snd (createRsvp req d))) = None)"
proof -
  have e: "uniquePairs emptyDb" by (simp add: uniquePairs_def emptyDb_def)
  then have a: "length (activeRecords i u (run ops emptyDb)) \<le> 1"
    by (intro activeRecords_le_1 uniquePairs_run)
  have k: "(\<exists>r \<in> set rs. event r = i \<and> user r = u) \<longrightarrow> rsvpCreate i u t rs = Inl DuplicateKey"
    by (simp add: rsvpCreate_def)
  have l: "uniqueEventIds d \<and> uniquePairs d \<and> param req = Oid i \<and> fault req = None
        \<and> findRsvp i (caller req) Confirmed (rsvps d) = Some r
        \<and> findById i (events d) = Some ev \<and> 0 < attendeeCount ev \<longrightarrow>
          code (fst (cancelRsvp req d)) = 200
          \<and> rsvps (snd (cancelRsvp req d))
              = map (\<lambda>x. if rid x = rid r
                          then x\<lparr>status := Cancelled, updatedAt := now req\<rparr> else x) (rsvps d)
          \<and> r\<lparr>status := Cancelled, updatedAt := now req\<rparr> \<in> set (rsvps (snd (cancelRsvp req d)))
          \<and> findRsvp i (caller req) Confirmed (rsvps (snd (cancelRsvp req d))) = None"
  proof (intro impI, elim conjE)
    assume h: "uniqueEventIds d" "uniquePairs d" "param req = Oid i" "fault req = None"
      "findRsvp i (caller req) Confirmed (rsvps d) = Some r"
      "findById i (events d) = Some ev" "0 < attendeeCount ev"
    from findRsvp_Some [OF h(5)]
    have rin: "r \<in> set (rsvps d)" and re: "event r = i" and ru: "user r = caller req"
      by simp_all
    from h(2) have dp: "distinct (map (\<lambda>r. (event r, user r)) (rsvps d))"
      by (simp add: uniquePairs_def)
    from leave_flips [OF h(1) h(3) h(4) h(5) h(6) h(7)]
    have c200: "code (fst (cancelRsvp req d)) = 200"
      and eq: "rsvps (snd (cancelRsvp req d))
              = map (\<lambda>x. if rid x = rid r
                          then x\<lparr>status := Cancelled, updatedAt := now req\<rparr> else x) (rsvps d)"
      by simp_all
    have m: "r\<lparr>status := Cancelled, updatedAt := now req\<rparr> \<in> set (rsvps (snd (cancelRsvp req d)))"
      unfolding eq using rin by (rule flipped_member)
    have n: "findRsvp i (caller req) Confirmed (rsvps (snd (cancelRsvp req d))) = None"
      unfolding eq using dp rin re ru by (rule flipped_only_status) simp
    from c200 eq m n
    show "code (fst (cancelRsvp req d)) = 200
          \<and> rsvps (snd (cancelRsvp req d))
              = map (\<lambda>x. if rid x = rid r
                          then x\<lparr>status := Cancelled, updatedAt := now req\<rparr> else x) (rsvps d)
          \<and> r\<lparr>status := Cancelled, updatedAt := now req\<rparr> \<in> set (rsvps (snd (cancelRsvp req d)))
          \<and> findRsvp i (caller req) Confirmed (rsvps (snd (cancelRsvp req d))) = None"
      by blast
  qed
  have j: "uniqueEventIds d \<and> uniquePairs d \<and> param req = Oid i \<and> fault req = None
        \<and> findById i (events d) = Some ev \<and> \<not> date ev < now req
        \<and> attendeeCount ev < capacity ev
        \<and> findRsvp i (caller req) Confirmed (rsvps d) = None
        \<and> findRsvp i (caller req) Cancelled (rsvps d) = Some c \<longrightarrow>
          code (fst (createRsvp req d)) = 201
          \<and> rsvps (snd (createRsvp req d))
              = map (\<lambda>x. if rid x = rid c
                          then x\<lparr>status := Confirmed, updatedAt := now req\<rparr> else x) (rsvps d)
          \<and> c\<lparr>status := Confirmed, updatedAt := now req\<rparr> \<in> set (rsvps (snd (createRsvp req d)))
          \<and> findRsvp i (caller req) Cancelled (rsvps (snd (createRsvp req d))) = None"
  proof (intro impI, elim conjE)
    assume h: "uniqueEventIds d" "uniquePairs d" "param req = Oid i" "fault req = None"
      "findById i (events d) = Some ev" "\<not> date ev < now req"
      "attendeeCount ev < capacity ev"
      "findRsvp i (caller req) Confirmed (rsvps d) = None"
      "findRsvp i (caller req) Cancelled (rsvps d) = Some c"
    from findRsvp_Some [OF h(9)]
    have cin: "c \<in> set (rsvps d)" and ce: "event c = i" and cu: "user c = caller req"
      by simp_all
    from h(2) have dp: "distinct (map (\<lambda>r. (event r, user r)) (rsvps d))"
      by (simp add: uniquePairs_def)
    from rejoin_flips [OF h(1) h(3) h(4) h(5) h(6) h(7) h(8) h(9)]
    have c201: "code (fst (createRsvp req d)) = 201"
      and eq: "rsvps (snd (createRsvp req d))
              = map (\<lambda>x. if rid x = rid c
                          then x\<lparr>status := Confirmed, updatedAt := now req\<rparr> else x) (rsvps d)"
      by simp_all
    have m: "c\<lparr>status := Confirmed, updatedAt := now req\<rparr> \<in> set (rsvps (snd (createRsvp req d)))"
      unfolding eq using cin by (rule flipped_member)
    have n: "findRsvp i (caller req) Cancelled (rsvps (snd (createRsvp req d))) = None"
      unfolding eq using dp cin ce cu by (rule flipped_only_status) simp
    from c201 eq m n
    show "code (fst (createRsvp req d)) = 201
          \<and> rsvps (snd (createRsvp req d))
              = map (\<lambda>x. if rid x = rid c
                          then x\<lparr>status := Confirmed, updatedAt := now req\<rparr> else x) (rsvps d)
          \<and> c\<lparr>status := Confirmed, updatedAt := now req\<rparr> \<in> set (rsvps (snd (createRsvp req d)))
          \<and> findRsvp i (caller req) Cancelled (rsvps (snd (createRsvp req d))) = None"
      by blast
  qed
  have inv: "uniquePairs d \<longrightarrow>
        length (activeRecords i u d) \<le> 1 \<and> uniquePairs (step x d) \<and> uniquePairs (run ops d)
        \<and> uniquePairs (snd (joinTx req i stale d)) \<and> uniquePairs (snd (leaveTx req i found d))"
    using activeRecords_le_1 [of d i u] uniquePairs_step [of d x] uniquePairs_run [of d ops]
      uniquePairs_joinTx [of d req i stale] uniquePairs_leaveTx [of d req i found]
    by blast
  have rows: "param req = Oid i \<and> findRsvp i (caller req) Cancelled (rsvps d) = Some c \<longrightarrow>
        map rid (rsvps (snd (createRsvp req d))) = map rid (rsvps d)"
    using rejoin_same_rows [of req i d c] by blast
  from e a inv k rows leave_same_rows [of req d] l j show ?thesis
    by (intro conjI)
qed

theorem one_active_record_per_pair_witness:
  "uniquePairs ex_db_new \<and> uniqueEventIds ex_db_in \<and> uniquePairs ex_db_in
   \<and> uniqueEventIds ex_db_out \<and> uniquePairs ex_db_out
   \<and> snd (createRsvp ex_req ex_db_new) = ex_db_in
   \<and> findRsvp 1 (caller ex_req) Confirmed (rsvps ex_db_in) = Some ex_rsvp_new
   \<and> code (fst (cancelRsvp ex_req ex_db_in)) = 200
   \<and> snd (cancelRsvp ex_req ex_db_in) = ex_db_out
   \<and> map (\<lambda>r. (rid r, status r)) (rsvps (snd (cancelRsvp ex_req ex_db_in))) = [(1, Cancelled)]
   \<and> findRsvp 1 (caller ex_req) Cancelled (rsvps ex_db_out)
       = Some (ex_rsvp_new\<lparr>status := Cancelled\<rparr>)
   \<and> code (fst (createRsvp ex_req ex_db_out)) = 201
   \<and> snd (createRsvp ex_req ex_db_out) = ex_db_in
   \<and> map (\<lambda>r. (rid r, status r)) (rsvps (snd (createRsvp ex_req ex_db_out))) = [(1, Confirmed)]
   \<and> uniquePairs (run [CreateRsvp ex_req, CancelRsvp ex_req, CreateRsvp ex_req] ex_db_new)
   \<and> length (activeRecords 1 7 ex_db_in) = 1 \<and> length (activeRecords 1 7 ex_db_out) = 0"
proof -
  have u0: "uniquePairs ex_db_new" by (simp add: uniquePairs_def ex_db_new_def)
  have u1: "uniqueEventIds ex_db_in" and p1: "uniquePairs ex_db_in"
    by (simp_all add: uniqueEventIds_def uniquePairs_def ex_db_in_def)
  have u2: "uniqueEventIds ex_db_out" and p2: "uniquePairs ex_db_out"
    by (simp_all add: uniqueEventIds_def uniquePairs_def ex_db_out_def)
  have par: "param ex_req = Oid 1" and nf: "fault ex_req = None" by (simp_all add: ex_req_def)
  have s1: "snd (createRsvp ex_req ex_db_new) = ex_db_in"
    by (simp add: createRsvp_def joinTx_def admit_def activate_def rsvpCreate_def
          findRsvp_def findById_def freshId_def Let_def ex_req_def ex_event_def ex_db_new_def
          ex_db_in_def ex_rsvp_new_def)
  have f1: "findRsvp 1 (caller ex_req) Confirmed (rsvps ex_db_in) = Some ex_rsvp_new"
    by (simp add: findRsvp_def ex_db_in_def ex_rsvp_new_def ex_req_def)
  have e1: "findById 1 (events ex_db_in) = Some ex_event"
    by (simp add: findById_def ex_db_in_def ex_event_def)
  have pos: "0 < attendeeCount ex_event" by (simp add: ex_event_def)
  have e2: "findById 1 (events ex_db_out) = Some (ex_event\<lparr>attendeeCount := 0\<rparr>)"
    by (simp add: findById_def ex_db_out_def ex_event_def)
  have fut: "\<not> date (ex_event\<lparr>attendeeCount := 0\<rparr>) < now ex_req"
    by (simp add: ex_event_def ex_req_def)
  have room: "attendeeCount (ex_event\<lparr>attendeeCount := 0\<rparr>)
                < capacity (ex_event\<lparr>attendeeCount := 0\<rparr>)"
    by (simp add: ex_event_def)
  have n2: "findRsvp 1 (caller ex_req) Confirmed (rsvps ex_db_out) = None"
    by (simp add: findRsvp_def ex_db_out_def ex_rsvp_new_def ex_req_def)
  have f2: "findRsvp 1 (caller ex_req) Cancelled (rsvps ex_db_out)
              = Some (ex_rsvp_new\<lparr>status := Cancelled\<rparr>)"
    by (simp add: findRsvp_def ex_db_out_def ex_rsvp_new_def ex_req_def)
  have s2: "snd (cancelRsvp ex_req ex_db_in) = ex_db_out"
    by (simp add: cancelRsvp_def leaveTx_def release_def rsvpSave_def findRsvp_def
          findById_def ex_req_def ex_event_def ex_rsvp_new_def ex_db_in_def ex_db_out_def)
  have s3: "snd (createRsvp ex_req ex_db_out) = ex_db_in"
    by (simp add: createRsvp_def joinTx_def admit_def activate_def rsvpSave_def
          findRsvp_def findById_def ex_req_def ex_event_def ex_rsvp_new_def ex_db_in_def
          ex_db_out_def)
  have a1: "length (activeRecords 1 7 ex_db_in) = 1"
    and a2: "length (activeRecords 1 7 ex_db_out) = 0"
    by (simp_all add: activeRecords_def ex_db_in_def ex_db_out_def ex_rsvp_new_def)
  note leave = one_active_record_per_pair
    [where d = ex_db_in and req = ex_req and i = 1 and r = ex_rsvp_new and ev = ex_event]
  note rejoin = one_active_record_per_pair
    [where d = ex_db_out and req = ex_req and i = 1
       and c = "ex_rsvp_new\<lparr>status := Cancelled\<rparr>"
       and ev = "ex_event\<lparr>attendeeCount := 0\<rparr>"]
  note cycle = one_active_record_per_pair
    [where d = ex_db_new and ops = "[CreateRsvp ex_req, CancelRsvp ex_req, CreateRsvp ex_req]"]
  from leave u1 p1 par nf f1 e1 pos
  have l200: "code (fst (cancelRsvp ex_req ex_db_in)) = 200" by blast
  from rejoin u2 p2 par nf e2 fut room n2 f2
  have j201: "code (fst (createRsvp ex_req ex_db_out)) = 201" by blast
  from cycle u0
  have inv: "uniquePairs (run [CreateRsvp ex_req, CancelRsvp ex_req, CreateRsvp ex_req] ex_db_new)"
    by blast
  have v2: "map (\<lambda>r. (rid r, status r)) (rsvps ex_db_out) = [(1, Cancelled)]"
    and v3: "map (\<lambda>r. (rid r, status r)) (rsvps ex_db_in) = [(1, Confirmed)]"
    by (simp_all add: ex_db_in_def ex_db_out_def ex_rsvp_new_def)
  from u0 u1 p1 u2 p2 s1 f1 l200 s2 v2 f2 j201 s3 v3 inv a1 a2 show ?thesis
    by (simp only: simp_thms)
qed

section \<open>A capacity update that overlaps a join\<close>

lemma updateEvent_two_steps:
  "updateEvent req d =
     (case updateEventCheck req d of
        Inl resp \<Rightarrow> (resp, d)
      | Inr i \<Rightarrow> updateEventWrite req i d)"
  by (simp add: updateEvent_def updateEventCheck_def updateEventWrite_def
           split: id_param.splits option.splits)

text \<open>
  Claim C2: every event satisfies \<open>0 \<le> attendeeCount \<le> capacity\<close> after every operation,
  and the owner cannot lower the capacity below the current count. The code breaks it
  when an update overlaps a join. updateEvent, which is its check followed by its write,
  tests the new capacity on the document it read and then writes the capacity without
  any condition on the count. With an event of capacity 2 and count 1, the owner's
  request for capacity 1 passes the check; a join by another caller then commits and
  makes the count 2; the owner's write is then applied and answered 200, and the event
  is left with count 2 above capacity 1. The same update arriving after the join would
  have been refused with 400.
\<close>

theorem updateEvent_stale_capacity_check:
  "updateEvent req d =
     (case updateEventCheck req d of
        Inl resp \<Rightarrow> (resp, d)
      | Inr i \<Rightarrow> updateEventWrite req i d)
   \<and> capacityInv ex_db_joined
   \<and> updateEventCheck ex_lower_req ex_db_joined = Inr 1
   \<and> code (fst (createRsvp ex_other_req ex_db_joined)) = 201
   \<and> capacityInv (snd (createRsvp ex_other_req ex_db_joined))
   \<and> fst (updateEventWrite ex_lower_req 1 (snd (createRsvp ex_other_req ex_db_joined)))
       = Response 200 ''Event updated successfully''
           (EventDoc (ex_event\<lparr>capacity := 1, attendeeCount := 2\<rparr>))
   \<and> events (snd (updateEventWrite ex_lower_req 1 (snd (createRsvp ex_other_req ex_db_joined))))
       = [ex_event\<lparr>capacity := 1, attendeeCount := 2\<rparr>]
   \<and> \<not> capacityInv
         (snd (updateEventWrite ex_lower_req 1 (snd (createRsvp ex_other_req ex_db_joined))))
   \<and> fst (updateEvent ex_lower_req (snd (createRsvp ex_other_req ex_db_joined)))
       = Response 400 ''Cannot reduce capacity below current attendee count'' (CurrentCount 2)"
proof -
  have i0: "capacityInv ex_db_joined"
    by (simp add: capacityInv_def ex_db_joined_def ex_event_def)
  have chk: "updateEventCheck ex_lower_req ex_db_joined = Inr 1"
    by (simp add: updateEventCheck_def findById_def truthyNum_def ex_lower_req_def ex_body_def
          ex_db_joined_def ex_event_def)
  have j: "createRsvp ex_other_req ex_db_joined
             = (Response 201 ''RSVP successful! You are registered for this event.''
                  (RsvpAndEvent (5, 1, Confirmed, 50) (1, ''Meetup'', 2, 2, 0)),
                \<lparr>events = [ex_event\<lparr>attendeeCount := 2\<rparr>],
                 rsvps = [ex_rsvp, \<lparr>rid = 5, event = 1, user = 8, status = Confirmed,
                                    createdAt = 50, updatedAt = 50\<rparr>]\<rparr>)"
    by (simp add: createRsvp_def joinTx_def admit_def activate_def rsvpCreate_def
          findRsvp_def findById_def freshId_def eventView_def Let_def ex_other_req_def
          ex_db_joined_def ex_event_def ex_rsvp_def)
  have i1: "capacityInv (snd (createRsvp ex_other_req ex_db_joined))"
    by (simp add: j capacityInv_def ex_event_def)
  have w: "updateEventWrite ex_lower_req 1 (snd (createRsvp ex_other_req ex_db_joined))
             = (Response 200 ''Event updated successfully''
                  (EventDoc (ex_event\<lparr>capacity := 1, attendeeCount := 2\<rparr>)),
                \<lparr>events = [ex_event\<lparr>capacity := 1, attendeeCount := 2\<rparr>],
                 rsvps = [ex_rsvp, \<lparr>rid = 5, event = 1, user = 8, status = Confirmed,
                                    createdAt = 50, updatedAt = 50\<rparr>]\<rparr>)"
    by (simp add: j updateEventWrite_def eventUpdate_def updateData_def truthyNum_def
          truthyStr_def capacityValid_def ex_lower_req_def ex_body_def ex_event_def)
  have bad: "\<not> capacityInv
         (snd (updateEventWrite ex_lower_req 1 (snd (createRsvp ex_other_req ex_db_joined))))"
    unfolding w by (simp add: capacityInv_def ex_event_def)
  have c201: "code (fst (createRsvp ex_other_req ex_db_joined)) = 201"
    unfolding j by simp
  have r200: "fst (updateEventWrite ex_lower_req 1 (snd (createRsvp ex_other_req ex_db_joined)))
       = Response 200 ''Event updated successfully''
           (EventDoc (ex_event\<lparr>capacity := 1, attendeeCount := 2\<rparr>))"
    unfolding w by simp
  have evs: "events (snd (updateEventWrite ex_lower_req 1 (snd (createRsvp ex_other_req ex_db_joined))))
       = [ex_event\<lparr>capacity := 1, attendeeCount := 2\<rparr>]"
    unfolding w by simp
  have late: "fst (updateEvent ex_lower_req (snd (createRsvp ex_other_req ex_db_joined)))
       = Response 400 ''Cannot reduce capacity below current attendee count'' (CurrentCount 2)"
    by (simp add: j updateEvent_def findById_def truthyNum_def ex_lower_req_def ex_body_def
          ex_event_def)
  from updateEvent_two_steps [of req d] i0 chk c201 i1 r200 evs bad late show ?thesis
    by (intro conjI)
qed

theorem updateEvent_stale_capacity_check_witness:
  "updateEventCheck ex_lower_req ex_db_joined = Inr 1
   \<and> updateEvent ex_lower_req ex_db_joined = updateEventWrite ex_lower_req 1 ex_db_joined
   \<and> events (snd (updateEvent ex_lower_req ex_db_joined)) = [ex_event\<lparr>capacity := 1\<rparr>]
   \<and> capacityInv (snd (updateEvent ex_lower_req ex_db_joined))
   \<and> \<not> capacityInv
         (snd (updateEventWrite ex_lower_req 1 (snd (createRsvp ex_other_req ex_db_joined))))"
proof -
  note t = updateEvent_stale_capacity_check [of ex_lower_req ex_db_joined]
  from t have chk: "updateEventCheck ex_lower_req ex_db_joined = Inr 1" by blast
  from t have "updateEvent ex_lower_req ex_db_joined =
     (case updateEventCheck ex_lower_req ex_db_joined of
        Inl resp \<Rightarrow> (resp, ex_db_joined)
      | Inr i \<Rightarrow> updateEventWrite ex_lower_req i ex_db_joined)"
    by blast
  then have two: "updateEvent ex_lower_req ex_db_joined
                    = updateEventWrite ex_lower_req 1 ex_db_joined"
    unfolding chk by simp
  have evs: "events (snd (updateEvent ex_lower_req ex_db_joined)) = [ex_event\<lparr>capacity := 1\<rparr>]"
    by (simp add: updateEvent_def eventUpdate_def updateData_def findById_def truthyNum_def
          truthyStr_def capacityValid_def ex_lower_req_def ex_body_def ex_db_joined_def
          ex_event_def)
  have ok: "capacityInv (snd (updateEvent ex_lower_req ex_db_joined))"
    unfolding capacityInv_def evs by (simp add: ex_event_def)
  from t have bad: "\<not> capacityInv
         (snd (updateEventWrite ex_lower_req 1 (snd (createRsvp ex_other_req ex_db_joined))))"
    by blast
  from chk two evs ok bad show ?thesis by (intro conjI)
qed

end
